theory Spec2Isabelle
  imports Main "HOL-Library.AList"
begin

section \<open>Token rotation of the image services\<close>

text \<open>
  The three services (\<^verbatim>\<open>hfService.ts\<close> for Hugging Face, \<^verbatim>\<open>msService.ts\<close> for
  Model Scope, and the Gitee AI service) each carry their own copy of one token
  management system: a comma separated token list and a per-day record of exhausted
  tokens, both kept in \<^verbatim>\<open>localStorage\<close>, and a retry wrapper that rotates to the next
  token when a call fails for lack of quota.

  Conventions of the embedding.
  \<^item> A JavaScript string is a \<^typ>\<open>string\<close>; a character stands for one code unit
    below 256.
  \<^item> An error thrown by an operation is an object with an optional \<^verbatim>\<open>message\<close> and
    an optional numeric \<^verbatim>\<open>status\<close>. An exception raised by the platform inside the
    token management itself (a \<^verbatim>\<open>TypeError\<close> on a property of \<^verbatim>\<open>undefined\<close>, say) is
    kept apart from these, as its message is the platform's.
  \<^item> Each service reads and writes just two keys of \<^verbatim>\<open>localStorage\<close>
    (\<^verbatim>\<open>TOKEN_STORAGE_KEY\<close> and \<^verbatim>\<open>TOKEN_STATUS_KEY\<close>), so the storage is modelled by
    the two items one service sees. The text under the status key is kept as what
    \<^verbatim>\<open>JSON.parse\<close> makes of it, and \<^verbatim>\<open>JSON.stringify\<close> of a store is the text that
    parses back to that store.
  \<^item> The services are modules, hence strict mode code.
  \<^item> The retry wrappers and the store take the date string of the moment as the
    parameter \<open>today\<close>; it stays the same during one call of a retry wrapper. The
    functions that compute it from the clock are \<open>getUTCDatesString\<close> and
    \<open>getBeijingDateString\<close> below.
  \<^item> The operation passed to a retry wrapper is a function of the number of calls
    made to it before and of the token it receives, so that it may answer
    differently each time it is called.
\<close>

subsection \<open>String operations of the platform\<close>

text \<open>White space as \<^verbatim>\<open>String.prototype.trim\<close> strips it, among the code units below 256.\<close>

definition is_space :: "char \<Rightarrow> bool" where
  "is_space c =
     (c = CHR 0x09 \<or> c = CHR 0x0A \<or> c = CHR 0x0B \<or> c = CHR 0x0C \<or> c = CHR 0x0D
      \<or> c = CHR 0x20 \<or> c = CHR 0xA0)"

definition trim :: "string \<Rightarrow> string" where
  "trim s = rev (dropWhile is_space (rev (dropWhile is_space s)))"

text \<open>\<^verbatim>\<open>s.split(',')\<close>: the fields between the commas; the empty string has one empty field.\<close>

fun split_comma :: "string \<Rightarrow> string list" where
  "split_comma [] = [[]]"
| "split_comma (c # cs) =
     (if c = CHR '','' then [] # split_comma cs
      else (case split_comma cs of [] \<Rightarrow> [[c]] | f # fs \<Rightarrow> (c # f) # fs))"

text \<open>The text with a comma between the fields: what \<^verbatim>\<open>split(',')\<close> takes apart.\<close>

fun join_comma :: "string list \<Rightarrow> string" where
  "join_comma [] = []"
| "join_comma [f] = f"
| "join_comma (f # g # fs) = f @ CHR '','' # join_comma (g # fs)"

fun starts_with :: "string \<Rightarrow> string \<Rightarrow> bool" where
  "starts_with s [] = True"
| "starts_with [] (p # ps) = False"
| "starts_with (c # cs) (p # ps) = (c = p \<and> starts_with cs ps)"

text \<open>\<^verbatim>\<open>s.includes(sub)\<close>: the comparison is by code unit, so letter case matters.\<close>

fun js_includes :: "string \<Rightarrow> string \<Rightarrow> bool" where
  "js_includes [] sub = (sub = [])"
| "js_includes (c # cs) sub = (starts_with (c # cs) sub \<or> js_includes cs sub)"

subsection \<open>Errors\<close>

record js_error =
  message :: "string option"
  status :: "int option"

text \<open>\<^verbatim>\<open>new Error(msg)\<close>\<close>

definition Error :: "string \<Rightarrow> js_error" where
  "Error msg = \<lparr>message = Some msg, status = None\<rparr>"

text \<open>\<^verbatim>\<open>error.message?.includes(kw)\<close>: undefined, hence falsy, when there is no message.\<close>

definition message_includes :: "js_error \<Rightarrow> string \<Rightarrow> bool" where
  "message_includes error kw = (case message error of None \<Rightarrow> False | Some m \<Rightarrow> js_includes m kw)"

subsection \<open>The date of the moment\<close>

text \<open>
  The clock as the date functions read it: \<^verbatim>\<open>new Date().getTime()\<close>, the milliseconds
  since the epoch, and \<^verbatim>\<open>new Date().getTimezoneOffset()\<close>, the minutes by which UTC is
  ahead of the local time of the process (\<open>-480\<close> where the local time is UTC+8).
\<close>

record clock =
  now :: int
  timezoneOffset :: int

definition digit :: "int \<Rightarrow> char" where
  "digit d = ''0123456789'' ! nat d"

definition pad2 :: "int \<Rightarrow> string" where
  "pad2 n = [digit (n div 10 mod 10), digit (n mod 10)]"

definition pad4 :: "int \<Rightarrow> string" where
  "pad4 n = pad2 (n div 100) @ pad2 n"

definition pad6 :: "int \<Rightarrow> string" where
  "pad6 n = pad2 (n div 10000) @ pad4 n"

text \<open>
  \<^verbatim>\<open>new Date(ms).toISOString().split('T')[0]\<close>: the calendar date in UTC of a time
  value, as year, month and day; the year has four digits, or a sign and six digits
  outside the years 0 to 9999.
\<close>

definition toISODate :: "int \<Rightarrow> string" where
  "toISODate ms =
     (let z = ms div 86400000 + 719468;
          era = z div 146097;
          doe = z - era * 146097;
          yoe = (doe - doe div 1460 + doe div 36524 - doe div 146096) div 365;
          doy = doe - (365 * yoe + yoe div 4 - yoe div 100);
          mp = (5 * doy + 2) div 153;
          d = doy - (153 * mp + 2) div 5 + 1;
          m = (if mp < 10 then mp + 3 else mp - 9);
          y = yoe + era * 400 + (if m \<le> 2 then 1 else 0);
          year = (if 0 \<le> y \<and> y \<le> 9999 then pad4 y
                  else (if y < 0 then CHR ''-'' else CHR ''+'') # pad6 (abs y))
      in year @ ''-'' @ pad2 m @ ''-'' @ pad2 d)"

text \<open>\<^verbatim>\<open>getUTCDatesString\<close> of \<^verbatim>\<open>hfService.ts\<close>.\<close>

definition getUTCDatesString :: "clock \<Rightarrow> string" where
  "getUTCDatesString clk = toISODate (now clk)"

text \<open>\<^verbatim>\<open>getBeijingDateString\<close> of \<^verbatim>\<open>msService.ts\<close> and of the Gitee AI service.\<close>

definition getBeijingDateString :: "clock \<Rightarrow> string" where
  "getBeijingDateString clk =
     (let utc = now clk + timezoneOffset clk * 60000;
          nd = utc + 3600000 * 8
      in toISODate nd)"

subsection \<open>The token status store\<close>

datatype exn = SyntaxError | TypeError | RangeError

text \<open>
  The value of \<^verbatim>\<open>store.exhausted\<close> in a parsed object.
  \<^item> \<open>Absent\<close>: \<^verbatim>\<open>undefined\<close> or \<^verbatim>\<open>null\<close>; reading or assigning a property of it throws
    a \<^verbatim>\<open>TypeError\<close>.
  \<^item> \<open>Plain\<close>: a plain object all of whose own properties are booleans, as the
    interface \<^verbatim>\<open>TokenStatusStore\<close> declares it: the own properties in insertion order,
    the first entry for a name being the property.
  \<^item> \<open>Exotic\<close>: any other value (a number, a string, an array, an object with an
    entry that is not a boolean). It is given by what the platform does with it: the
    first component tells for each name whether the property of that name reads as
    truthy, the second what assigning \<^verbatim>\<open>true\<close> to a name and saving the store
    does, which is either an exception or the value that is read back from the saved
    text.
\<close>

datatype exhausted_field =
    Absent
  | Plain "(string \<times> bool) list"
  | Exotic "string \<Rightarrow> bool" "string \<Rightarrow> exn + exhausted_field"

record TokenStatusStore =
  date :: string
  exhausted :: exhausted_field

text \<open>
  What \<^verbatim>\<open>JSON.parse\<close> returns for a stored text: \<open>JNull\<close> is \<^verbatim>\<open>null\<close>, on which
  reading \<^verbatim>\<open>store.date\<close> throws; \<open>JStore\<close> is an object whose \<^verbatim>\<open>date\<close> is a string,
  with whatever it has for \<^verbatim>\<open>exhausted\<close>; \<open>JOther\<close> is any other value (a number, a
  string, an array, an object whose \<^verbatim>\<open>date\<close> is not a string), whose \<^verbatim>\<open>date\<close> is
  never equal to the date of today. Properties other than these two are not read by
  the code.
\<close>

datatype json = JNull | JOther | JStore TokenStatusStore

text \<open>
  A text stored under the status key: the empty string, a text that is not JSON, or a
  text that is the JSON of a value.
\<close>

datatype item = EmptyText | Malformed | Json json

record items =
  token_item :: "string option"
  status_item :: "item option"

text \<open>\<open>Undefined\<close>: \<^verbatim>\<open>typeof localStorage === 'undefined'\<close>.\<close>

datatype localStorage = Undefined | Defined items

definition JSON_parse :: "item \<Rightarrow> exn + json" where
  "JSON_parse raw = (case raw of EmptyText \<Rightarrow> Inl SyntaxError | Malformed \<Rightarrow> Inl SyntaxError | Json v \<Rightarrow> Inr v)"

definition JSON_stringify :: "TokenStatusStore \<Rightarrow> item" where
  "JSON_stringify store = Json (JStore store)"

definition defaultStore :: "string \<Rightarrow> TokenStatusStore" where
  "defaultStore today = \<lparr>date = today, exhausted = Plain []\<rparr>"

text \<open>The body of the \<^verbatim>\<open>try\<close> block of \<^verbatim>\<open>getTokenStatusStore\<close>.\<close>

definition read_store :: "items \<Rightarrow> string \<Rightarrow> exn + TokenStatusStore" where
  "read_store its today =
     (case status_item its of
        None \<Rightarrow> Inr (defaultStore today)
      | Some raw \<Rightarrow>
          if raw = EmptyText then Inr (defaultStore today)
          else (case JSON_parse raw of
                  Inl e \<Rightarrow> Inl e
                | Inr JNull \<Rightarrow> Inl TypeError
                | Inr JOther \<Rightarrow> Inr (defaultStore today)
                | Inr (JStore store) \<Rightarrow>
                    if date store \<noteq> today then Inr (defaultStore today) else Inr store))"

definition getTokenStatusStore :: "localStorage \<Rightarrow> string \<Rightarrow> TokenStatusStore" where
  "getTokenStatusStore ls today =
     (case ls of
        Undefined \<Rightarrow> defaultStore today
      | Defined its \<Rightarrow>
          (case read_store its today of Inl e \<Rightarrow> defaultStore today | Inr store \<Rightarrow> store))"

definition saveTokenStatusStore :: "localStorage \<Rightarrow> TokenStatusStore \<Rightarrow> localStorage" where
  "saveTokenStatusStore ls store =
     (case ls of
        Undefined \<Rightarrow> Undefined
      | Defined its \<Rightarrow> Defined (its\<lparr>status_item := Some (JSON_stringify store)\<rparr>))"

text \<open>The argument \<^verbatim>\<open>rawInput?: string | null\<close>.\<close>

datatype raw_input = Omitted | Null | Given string

text \<open>
  \<^verbatim>\<open>getTokens\<close>, and likewise \<^verbatim>\<open>getMsTokens\<close> and \<^verbatim>\<open>getGiteeTokens\<close>, which differ in
  the storage key alone.
\<close>

definition getTokens :: "raw_input \<Rightarrow> localStorage \<Rightarrow> string list" where
  "getTokens rawInput ls =
     (let input =
        (case rawInput of
           Omitted \<Rightarrow> (case ls of Undefined \<Rightarrow> Some [] | Defined its \<Rightarrow> token_item its)
         | Null \<Rightarrow> None
         | Given s \<Rightarrow> Some s)
      in case input of
           None \<Rightarrow> []
         | Some s \<Rightarrow>
             if s = [] then []
             else filter (\<lambda>t. length t > 0) (map trim (split_comma s)))"

text \<open>
  The names of the properties that every plain object inherits from
  \<^verbatim>\<open>Object.prototype\<close>. Each of them reads as a function or, for \<^verbatim>\<open>__proto__\<close>, as the
  prototype object: a truthy value.
\<close>

definition Object_prototype :: "string list" where
  "Object_prototype =
     [''constructor'', ''hasOwnProperty'', ''isPrototypeOf'', ''propertyIsEnumerable'',
      ''toLocaleString'', ''toString'', ''valueOf'', ''__defineGetter__'',
      ''__defineSetter__'', ''__lookupGetter__'', ''__lookupSetter__'', ''__proto__'']"

text \<open>
  The truth value of \<^verbatim>\<open>store.exhausted[t]\<close>: an own property decides, and where there
  is none, an inherited one.
\<close>

definition is_exhausted :: "TokenStatusStore \<Rightarrow> string \<Rightarrow> exn + bool" where
  "is_exhausted store t =
     (case exhausted store of
        Absent \<Rightarrow> Inl TypeError
      | Plain entries \<Rightarrow>
          Inr (case map_of entries t of Some b \<Rightarrow> b | None \<Rightarrow> t \<in> set Object_prototype)
      | Exotic reads assigns \<Rightarrow> Inr (reads t))"

text \<open>
  \<^verbatim>\<open>store.exhausted[token] = true\<close>, as the saved text shows it. On a plain object the
  assignment sets an own property, but to the name \<^verbatim>\<open>__proto__\<close>, when that is not an
  own property, it calls the inherited setter, which ignores a value that is not an
  object.
\<close>

definition assign_true :: "exhausted_field \<Rightarrow> string \<Rightarrow> exn + exhausted_field" where
  "assign_true field token =
     (case field of
        Absent \<Rightarrow> Inl TypeError
      | Plain entries \<Rightarrow>
          if token = ''__proto__'' \<and> map_of entries token = None then Inr (Plain entries)
          else Inr (Plain (AList.update token True entries))
      | Exotic reads assigns \<Rightarrow> assigns token)"

text \<open>\<^verbatim>\<open>xs.find(p)\<close> with a callback that may throw.\<close>

fun find_first :: "('a \<Rightarrow> exn + bool) \<Rightarrow> 'a list \<Rightarrow> exn + 'a option" where
  "find_first p [] = Inr None"
| "find_first p (x # xs) =
     (case p x of
        Inl e \<Rightarrow> Inl e
      | Inr b \<Rightarrow> if b then Inr (Some x) else find_first p xs)"

text \<open>\<^verbatim>\<open>xs.filter(p).length\<close> with a callback that may throw.\<close>

fun filter_length :: "('a \<Rightarrow> exn + bool) \<Rightarrow> 'a list \<Rightarrow> exn + nat" where
  "filter_length p [] = Inr 0"
| "filter_length p (x # xs) =
     (case p x of
        Inl e \<Rightarrow> Inl e
      | Inr b \<Rightarrow>
          (case filter_length p xs of
             Inl e \<Rightarrow> Inl e
           | Inr n \<Rightarrow> Inr (if b then Suc n else n)))"

record token_stats =
  total :: int
  exhausted_count :: int
  active :: int

definition getTokenStats :: "string \<Rightarrow> localStorage \<Rightarrow> string \<Rightarrow> exn + token_stats" where
  "getTokenStats rawInput ls today =
     (let tokens = getTokens (Given rawInput) ls;
          store = getTokenStatusStore ls today;
          n = int (length tokens)
      in case filter_length (\<lambda>t. is_exhausted store t) tokens of
           Inl e \<Rightarrow> Inl e
         | Inr k \<Rightarrow> Inr \<lparr>total = n, exhausted_count = int k, active = n - int k\<rparr>)"

text \<open>
  \<^verbatim>\<open>tokens.find(t => !store.exhausted[t]) || null\<close>: an empty string found would be
  falsy.
\<close>

definition getNextAvailableToken :: "localStorage \<Rightarrow> string \<Rightarrow> exn + string option" where
  "getNextAvailableToken ls today =
     (let tokens = getTokens Omitted ls;
          store = getTokenStatusStore ls today
      in case find_first (\<lambda>t. map_sum id Not (is_exhausted store t)) tokens of
           Inl e \<Rightarrow> Inl e
         | Inr None \<Rightarrow> Inr None
         | Inr (Some t) \<Rightarrow> if t = [] then Inr None else Inr (Some t))"

definition markTokenExhausted :: "localStorage \<Rightarrow> string \<Rightarrow> string \<Rightarrow> exn + localStorage" where
  "markTokenExhausted ls today token =
     (let store = getTokenStatusStore ls today
      in case assign_true (exhausted store) token of
           Inl e \<Rightarrow> Inl e
         | Inr field \<Rightarrow> Inr (saveTokenStatusStore ls (store\<lparr>exhausted := field\<rparr>)))"

subsection \<open>The retry wrappers\<close>

text \<open>The three \<^verbatim>\<open>isQuotaError\<close> expressions, one per service.\<close>

definition QUOTA_ERROR_KEY :: string where
  "QUOTA_ERROR_KEY = ''error_quota_exhausted''"

definition hf_isQuotaError :: "js_error \<Rightarrow> bool" where
  "hf_isQuotaError error =
     (message error = Some QUOTA_ERROR_KEY
      \<or> message_includes error ''429''
      \<or> status error = Some 429)"

definition ms_isQuotaError :: "js_error \<Rightarrow> bool" where
  "ms_isQuotaError error =
     (message_includes error ''429''
      \<or> status error = Some 429
      \<or> message_includes error ''quota''
      \<or> message_includes error ''credit''
      \<or> message_includes error ''Arrearage''
      \<or> message_includes error ''Bill'')"

definition gitee_isQuotaError :: "js_error \<Rightarrow> bool" where
  "gitee_isQuotaError error =
     (message_includes error ''429''
      \<or> status error = Some 429
      \<or> message_includes error ''quota''
      \<or> message_includes error ''credit'')"

text \<open>
  What the promise of a wrapper is rejected with: an error thrown by the operation or
  by the wrapper (\<open>Thrown\<close>), or an exception of the platform raised while the wrapper
  selected or marked a token (\<open>Native\<close>).
\<close>

datatype rejection = Thrown js_error | Native exn

text \<open>
  What a call of a retry wrapper leaves behind: the settled promise, the storage, the
  final value of the local variable \<^verbatim>\<open>attempts\<close>, and how often the operation was called.
\<close>

record 'a run =
  outcome :: "rejection + 'a"
  storage :: localStorage
  attempts_made :: nat
  calls_made :: nat

type_synonym 'a operation = "nat \<Rightarrow> string option \<Rightarrow> js_error + 'a"

text \<open>The promise of the operation, handed on as it settles.\<close>

definition settled :: "js_error + 'a \<Rightarrow> rejection + 'a" where
  "settled r = (case r of Inl error \<Rightarrow> Inl (Thrown error) | Inr result \<Rightarrow> Inr result)"

text \<open>
  The \<^verbatim>\<open>while (attempts < maxAttempts)\<close> loop and the \<^verbatim>\<open>throw\<close> after it, which the three
  wrappers share but for the message of the exhausted error and the classifier.
  \<^verbatim>\<open>getNextAvailableToken\<close> is called outside the \<^verbatim>\<open>try\<close> block and
  \<^verbatim>\<open>markTokenExhausted\<close> inside the \<^verbatim>\<open>catch\<close> block, so that an exception of either
  leaves the wrapper.
\<close>

function retry_loop ::
  "string \<Rightarrow> (js_error \<Rightarrow> bool) \<Rightarrow> string \<Rightarrow> 'a operation \<Rightarrow> nat \<Rightarrow>
   localStorage \<Rightarrow> nat \<Rightarrow> nat \<Rightarrow> js_error option \<Rightarrow> 'a run" where
  "retry_loop exhaustedKey isQuotaError today operation maxAttempts ls attempts calls lastError =
     (if attempts < maxAttempts then
        (case getNextAvailableToken ls today of
           Inl e \<Rightarrow>
             \<lparr>outcome = Inl (Native e), storage = ls,
              attempts_made = attempts + 1, calls_made = calls\<rparr>
         | Inr None \<Rightarrow>
             \<lparr>outcome = Inl (Thrown (Error exhaustedKey)), storage = ls,
              attempts_made = attempts + 1, calls_made = calls\<rparr>
         | Inr (Some token) \<Rightarrow>
             (case operation calls (Some token) of
                Inr result \<Rightarrow>
                  \<lparr>outcome = Inr result, storage = ls,
                   attempts_made = attempts + 1, calls_made = calls + 1\<rparr>
              | Inl error \<Rightarrow>
                  if isQuotaError error \<and> token \<noteq> [] then
                    (case markTokenExhausted ls today token of
                       Inl e \<Rightarrow>
                         \<lparr>outcome = Inl (Native e), storage = ls,
                          attempts_made = attempts + 1, calls_made = calls + 1\<rparr>
                     | Inr ls' \<Rightarrow>
                         retry_loop exhaustedKey isQuotaError today operation maxAttempts
                           ls' (attempts + 1) (calls + 1) (Some error))
                  else
                    \<lparr>outcome = Inl (Thrown error), storage = ls,
                     attempts_made = attempts + 1, calls_made = calls + 1\<rparr>))
      else
        \<lparr>outcome = Inl (Thrown (case lastError of Some e \<Rightarrow> e
                                  | None \<Rightarrow> Error ''error_api_connection'')),
         storage = ls, attempts_made = attempts, calls_made = calls\<rparr>)"
  by pat_completeness auto
termination
  by (relation "measure (\<lambda>(k, q, d, f, maxAttempts, ls, attempts, c, e). maxAttempts - attempts)") auto

declare retry_loop.simps [simp del]

definition runWithTokenRetry :: "'a operation \<Rightarrow> localStorage \<Rightarrow> string \<Rightarrow> 'a run" where
  "runWithTokenRetry operation ls today =
     (let tokens = getTokens Omitted ls in
      if length tokens = 0 then
        \<lparr>outcome = settled (operation 0 None), storage = ls, attempts_made = 0, calls_made = 1\<rparr>
      else
        retry_loop QUOTA_ERROR_KEY hf_isQuotaError today operation (length tokens + 1) ls 0 0 None)"

definition runWithMsTokenRetry :: "'a operation \<Rightarrow> localStorage \<Rightarrow> string \<Rightarrow> 'a run" where
  "runWithMsTokenRetry operation ls today =
     (let tokens = getTokens Omitted ls in
      if length tokens = 0 then
        \<lparr>outcome = Inl (Thrown (Error ''error_ms_token_required'')), storage = ls,
         attempts_made = 0, calls_made = 0\<rparr>
      else
        retry_loop ''error_ms_token_exhausted'' ms_isQuotaError today operation
          (length tokens + 1) ls 0 0 None)"

definition runWithGiteeTokenRetry :: "'a operation \<Rightarrow> localStorage \<Rightarrow> string \<Rightarrow> 'a run" where
  "runWithGiteeTokenRetry operation ls today =
     (let tokens = getTokens Omitted ls in
      if length tokens = 0 then
        \<lparr>outcome = Inl (Thrown (Error ''error_gitee_token_required'')), storage = ls,
         attempts_made = 0, calls_made = 0\<rparr>
      else
        retry_loop ''error_gitee_token_exhausted'' gitee_isQuotaError today operation
          (length tokens + 1) ls 0 0 None)"

text \<open>
  The specification speaks of one executor \<^verbatim>\<open>execute(providerKey, operation)\<close>; the
  source has one wrapper per provider. The following names select among them.
\<close>

datatype provider = HuggingFace | ModelScope | Gitee

definition execute :: "provider \<Rightarrow> 'a operation \<Rightarrow> localStorage \<Rightarrow> string \<Rightarrow> 'a run" where
  "execute p =
     (case p of HuggingFace \<Rightarrow> runWithTokenRetry | ModelScope \<Rightarrow> runWithMsTokenRetry
      | Gitee \<Rightarrow> runWithGiteeTokenRetry)"

definition isQuotaFailure :: "provider \<Rightarrow> js_error \<Rightarrow> bool" where
  "isQuotaFailure p =
     (case p of HuggingFace \<Rightarrow> hf_isQuotaError | ModelScope \<Rightarrow> ms_isQuotaError
      | Gitee \<Rightarrow> gitee_isQuotaError)"

text \<open>The message of the error each wrapper throws when no token is left.\<close>

definition exhaustedKey :: "provider \<Rightarrow> string" where
  "exhaustedKey p =
     (case p of HuggingFace \<Rightarrow> ''error_quota_exhausted''
      | ModelScope \<Rightarrow> ''error_ms_token_exhausted''
      | Gitee \<Rightarrow> ''error_gitee_token_exhausted'')"

subsection \<open>Auxiliary notions and sample data\<close>

text \<open>A store as the interface \<^verbatim>\<open>TokenStatusStore\<close> declares it.\<close>

definition well_formed :: "TokenStatusStore \<Rightarrow> bool" where
  "well_formed store = (case exhausted store of Plain entries \<Rightarrow> True | _ \<Rightarrow> False)"

text \<open>A token reads as exhausted in a store.\<close>

definition reads_exhausted :: "TokenStatusStore \<Rightarrow> string \<Rightarrow> bool" where
  "reads_exhausted store t = (is_exhausted store t = Inr True)"

text \<open>The configured tokens that do not read as exhausted in the current record, in their order.\<close>

definition available_tokens :: "localStorage \<Rightarrow> string \<Rightarrow> string list" where
  "available_tokens ls today =
     filter (\<lambda>t. \<not> reads_exhausted (getTokenStatusStore ls today) t) (getTokens Omitted ls)"

text \<open>An operation that is always refused with status 429.\<close>

definition quota_op :: "string operation" where
  "quota_op n t = Inl \<lparr>message = None, status = Some 429\<rparr>"

text \<open>An operation that always fails on a malformed response.\<close>

definition invalid_op :: "string operation" where
  "invalid_op n t = Inl (Error ''error_invalid_response'')"

text \<open>An operation that succeeds with the token \<open>b\<close> and is refused with any other.\<close>

definition b_op :: "string operation" where
  "b_op n t =
     (if t = Some ''b'' then Inr ''url''
      else Inl \<lparr>message = Some ''HTTP 429 Too Many Requests'', status = None\<rparr>)"

text \<open>
  A process whose local time is UTC+8, at 15:00 UTC and at 17:00 UTC of 1 May 2024: in
  Beijing, 23:00 of 1 May and 01:00 of 2 May.
\<close>

definition beijing_evening :: clock where
  "beijing_evening = \<lparr>now = 1714575600000, timezoneOffset = - 480\<rparr>"

definition beijing_night :: clock where
  "beijing_night = \<lparr>now = 1714582800000, timezoneOffset = - 480\<rparr>"

section \<open>Properties of the platform string operations\<close>

lemma starts_with_iff: "starts_with s p \<longleftrightarrow> (\<exists>post. s = p @ post)"
  by (induction s p rule: starts_with.induct) auto

lemma js_includes_iff: "js_includes s sub \<longleftrightarrow> (\<exists>pre post. s = pre @ sub @ post)"
proof (induction s)
  case Nil
  then show ?case by auto
next
  case (Cons c cs)
  show ?case
  proof
    assume "js_includes (c # cs) sub"
    then consider "starts_with (c # cs) sub" | "js_includes cs sub" by auto
    then show "\<exists>pre post. c # cs = pre @ sub @ post"
    proof cases
      case 1
      then obtain post where "c # cs = sub @ post" by (auto simp: starts_with_iff)
      then have "c # cs = [] @ sub @ post" by simp
      then show ?thesis by blast
    next
      case 2
      then obtain pre post where "cs = pre @ sub @ post" using Cons.IH by auto
      then have "c # cs = (c # pre) @ sub @ post" by simp
      then show ?thesis by blast
    qed
  next
    assume "\<exists>pre post. c # cs = pre @ sub @ post"
    then obtain pre post where e: "c # cs = pre @ sub @ post" by auto
    show "js_includes (c # cs) sub"
    proof (cases pre)
      case Nil
      then have "starts_with (c # cs) sub" using e by (auto simp: starts_with_iff)
      then show ?thesis by simp
    next
      case (Cons p ps)
      then have "cs = ps @ sub @ post" using e by simp
      then have "js_includes cs sub" using Cons.IH by auto
      then show ?thesis by simp
    qed
  qed
qed

lemma split_comma_nonempty: "split_comma s \<noteq> []"
  by (induction s) (auto split: list.splits)

lemma join_split_comma: "join_comma (split_comma s) = s"
proof (induction s)
  case Nil
  then show ?case by simp
next
  case (Cons c cs)
  obtain f fs where sp: "split_comma cs = f # fs"
    using split_comma_nonempty [of cs] by (cases "split_comma cs") auto
  show ?case
  proof (cases "c = CHR '',''")
    case True
    then show ?thesis using Cons.IH sp by simp
  next
    case False
    then show ?thesis using Cons.IH sp by (cases fs) auto
  qed
qed

lemma split_comma_no_comma: "f \<in> set (split_comma s) \<Longrightarrow> CHR '','' \<notin> set f"
proof (induction s arbitrary: f)
  case Nil
  then show ?case by simp
next
  case (Cons c cs)
  obtain g gs where sp: "split_comma cs = g # gs"
    using split_comma_nonempty [of cs] by (cases "split_comma cs") auto
  show ?case
  proof (cases "c = CHR '',''")
    case True
    then show ?thesis using Cons sp by auto
  next
    case False
    then show ?thesis using Cons.prems Cons.IH [of g] Cons.IH [of f] sp by auto
  qed
qed

lemma trim_decomp:
  "\<exists>l r. s = l @ trim s @ r \<and> list_all is_space l \<and> list_all is_space r"
proof -
  let ?l = "takeWhile is_space s"
  let ?m = "dropWhile is_space s"
  let ?r = "rev (takeWhile is_space (rev ?m))"
  have "?m = trim s @ ?r"
    unfolding trim_def by (metis rev_append rev_rev_ident takeWhile_dropWhile_id)
  then have "s = ?l @ trim s @ ?r" by (metis takeWhile_dropWhile_id)
  moreover have "list_all is_space ?l"
    by (simp add: list_all_iff) (meson set_takeWhileD)
  moreover have "list_all is_space ?r"
    by (simp add: list_all_iff) (meson set_takeWhileD)
  ultimately show ?thesis by blast
qed

lemma trim_hd: "trim s \<noteq> [] \<Longrightarrow> \<not> is_space (hd (trim s))"
proof -
  assume ne: "trim s \<noteq> []"
  let ?m = "dropWhile is_space s"
  have m: "?m \<noteq> []"
  proof
    assume e: "?m = []"
    have "trim s = rev (dropWhile is_space (rev ?m))" by (simp only: trim_def)
    also have "\<dots> = []" by (simp only: e rev.simps dropWhile.simps)
    finally show False using ne by simp
  qed
  have h: "\<not> is_space (hd ?m)" using m by (simp add: hd_dropWhile)
  obtain r where "?m = trim s @ r"
    unfolding trim_def by (metis rev_append rev_rev_ident takeWhile_dropWhile_id)
  then have "hd ?m = hd (trim s)" using ne by (metis hd_append2)
  then show ?thesis using h by simp
qed

lemma trim_last: "trim s \<noteq> [] \<Longrightarrow> \<not> is_space (last (trim s))"
proof -
  assume ne: "trim s \<noteq> []"
  let ?d = "dropWhile is_space (rev (dropWhile is_space s))"
  have d: "?d \<noteq> []" using ne by (simp add: trim_def)
  have "last (trim s) = hd ?d" using d by (simp add: trim_def last_rev)
  then show ?thesis using d by (simp add: hd_dropWhile)
qed

section \<open>Properties of the token status store\<close>

lemma load_date: "date (getTokenStatusStore ls today) = today"
  by (auto simp: getTokenStatusStore_def read_store_def defaultStore_def JSON_parse_def
      split: localStorage.splits option.splits sum.splits json.splits item.splits)

lemma load_Undefined: "getTokenStatusStore Undefined today = \<lparr>date = today, exhausted = Plain []\<rparr>"
  by (simp add: getTokenStatusStore_def defaultStore_def)

lemma getTokens_nonempty: "t \<in> set (getTokens ri ls) \<Longrightarrow> t \<noteq> []"
  by (auto simp: getTokens_def Let_def split: raw_input.splits localStorage.splits option.splits if_splits)

lemma tokens_Defined: "getTokens Omitted ls \<noteq> [] \<Longrightarrow> \<exists>its. ls = Defined its"
  by (cases ls) (simp_all add: getTokens_def)

lemma getTokens_Given: "getTokens (Given raw) ls = getTokens (Given raw) ls'"
  by (simp add: getTokens_def)

lemma getTokens_status:
  "getTokens ri (Defined (its\<lparr>status_item := si\<rparr>)) = getTokens ri (Defined its)"
  by (simp add: getTokens_def split: raw_input.splits)

lemma find_first_total:
  "(\<And>x. x \<in> set xs \<Longrightarrow> p x = Inr (q x)) \<Longrightarrow> find_first p xs = Inr (find q xs)"
  by (induction xs) auto

lemma filter_length_total:
  "(\<And>x. x \<in> set xs \<Longrightarrow> p x = Inr (q x)) \<Longrightarrow> filter_length p xs = Inr (length (filter q xs))"
  by (induction xs) auto

lemma is_exhausted_wf:
  "well_formed store \<Longrightarrow> is_exhausted store t = Inr (reads_exhausted store t)"
  by (auto simp: well_formed_def reads_exhausted_def is_exhausted_def split: exhausted_field.splits)

lemma well_formed_default: "well_formed (defaultStore today)"
  by (simp add: well_formed_def defaultStore_def)

lemma find_filter_hd:
  "find P xs = (case filter P xs of [] \<Rightarrow> None | x # _ \<Rightarrow> Some x)"
  by (induction xs) auto

lemma next_available:
  assumes "well_formed (getTokenStatusStore ls today)"
  shows "getNextAvailableToken ls today =
     Inr (case available_tokens ls today of [] \<Rightarrow> None | t # _ \<Rightarrow> Some t)"
proof -
  let ?st = "getTokenStatusStore ls today"
  have f: "find_first (\<lambda>t. map_sum id Not (is_exhausted ?st t)) (getTokens Omitted ls) =
      Inr (find (\<lambda>t. \<not> reads_exhausted ?st t) (getTokens Omitted ls))"
    by (rule find_first_total) (simp add: is_exhausted_wf [OF assms])
  show ?thesis
  proof (cases "available_tokens ls today")
    case Nil
    then show ?thesis
      by (simp add: getNextAvailableToken_def Let_def f find_filter_hd available_tokens_def)
  next
    case (Cons t ts)
    then have "t \<in> set (getTokens Omitted ls)"
      by (metis available_tokens_def filter_is_subset list.set_intros(1) subsetD)
    then have "t \<noteq> []" by (rule getTokens_nonempty)
    then show ?thesis using Cons
      by (simp add: getNextAvailableToken_def Let_def f find_filter_hd available_tokens_def)
  qed
qed

lemma proto_inherited: "''__proto__'' \<in> set Object_prototype"
  by (simp add: Object_prototype_def)

lemma update_twice:
  "AList.update t True (AList.update t True al) = AList.update t True al"
  by (induction al) auto

lemma assign_plain:
  "\<exists>entries'. assign_true (Plain entries) t = Inr (Plain entries')
     \<and> assign_true (Plain entries') t = Inr (Plain entries')
     \<and> (\<forall>u. (case map_of entries' u of Some b \<Rightarrow> b | None \<Rightarrow> u \<in> set Object_prototype)
             \<longleftrightarrow> u = t \<or> (case map_of entries u of Some b \<Rightarrow> b | None \<Rightarrow> u \<in> set Object_prototype))
     \<and> (t \<noteq> ''__proto__'' \<longrightarrow> map_of entries' t = Some True)"
proof (cases "t = ''__proto__'' \<and> map_of entries t = None")
  case True
  then show ?thesis using proto_inherited by (auto simp: assign_true_def)
next
  case False
  have "assign_true (Plain entries) t = Inr (Plain (AList.update t True entries))"
    using False by (auto simp: assign_true_def)
  moreover have "assign_true (Plain (AList.update t True entries)) t
      = Inr (Plain (AList.update t True entries))"
    by (simp add: assign_true_def update_conv' update_twice)
  ultimately show ?thesis by (auto simp: update_conv')
qed

lemma load_save:
  "date store = today \<Longrightarrow> getTokenStatusStore (saveTokenStatusStore (Defined its) store) today = store"
  by (simp add: getTokenStatusStore_def saveTokenStatusStore_def read_store_def JSON_parse_def
      JSON_stringify_def)

lemma mark_Undefined: "markTokenExhausted Undefined today t = Inr Undefined"
  by (simp add: markTokenExhausted_def saveTokenStatusStore_def Let_def load_Undefined
      assign_true_def)

lemma mark_well_formed:
  assumes wf: "well_formed (getTokenStatusStore (Defined its) today)"
  shows "\<exists>its'. markTokenExhausted (Defined its) today t = Inr (Defined its')
     \<and> markTokenExhausted (Defined its') today t = Inr (Defined its')
     \<and> token_item its' = token_item its
     \<and> well_formed (getTokenStatusStore (Defined its') today)
     \<and> (\<forall>u. reads_exhausted (getTokenStatusStore (Defined its') today) u
             \<longleftrightarrow> u = t \<or> reads_exhausted (getTokenStatusStore (Defined its) today) u)
     \<and> (t \<noteq> ''__proto__'' \<longrightarrow>
          (\<exists>entries'. exhausted (getTokenStatusStore (Defined its') today) = Plain entries'
             \<and> map_of entries' t = Some True))"
proof -
  let ?st = "getTokenStatusStore (Defined its) today"
  obtain entries where e: "exhausted ?st = Plain entries"
    using wf by (auto simp: well_formed_def split: exhausted_field.splits)
  obtain entries' where a: "assign_true (Plain entries) t = Inr (Plain entries')"
    and a2: "assign_true (Plain entries') t = Inr (Plain entries')"
    and r: "\<forall>u. (case map_of entries' u of Some b \<Rightarrow> b | None \<Rightarrow> u \<in> set Object_prototype)
             \<longleftrightarrow> u = t \<or> (case map_of entries u of Some b \<Rightarrow> b | None \<Rightarrow> u \<in> set Object_prototype)"
    and o: "t \<noteq> ''__proto__'' \<longrightarrow> map_of entries' t = Some True"
    using assign_plain [of entries t] by blast
  let ?st' = "?st\<lparr>exhausted := Plain entries'\<rparr>"
  let ?its' = "its\<lparr>status_item := Some (JSON_stringify ?st')\<rparr>"
  have m: "markTokenExhausted (Defined its) today t = Inr (Defined ?its')"
    by (simp add: markTokenExhausted_def Let_def e a saveTokenStatusStore_def)
  have l: "getTokenStatusStore (Defined ?its') today = ?st'"
    using load_save [of ?st' today its] by (simp add: load_date saveTokenStatusStore_def)
  have m2: "markTokenExhausted (Defined ?its') today t = Inr (Defined ?its')"
    by (simp add: markTokenExhausted_def Let_def l a2 saveTokenStatusStore_def)
  have w: "well_formed (getTokenStatusStore (Defined ?its') today)"
    by (simp add: l well_formed_def)
  have rd: "\<forall>u. reads_exhausted (getTokenStatusStore (Defined ?its') today) u
             \<longleftrightarrow> u = t \<or> reads_exhausted ?st u"
    using r by (simp add: l reads_exhausted_def is_exhausted_def e)
  have ow: "t \<noteq> ''__proto__'' \<longrightarrow>
          (\<exists>entries'. exhausted (getTokenStatusStore (Defined ?its') today) = Plain entries'
             \<and> map_of entries' t = Some True)"
    using o by (simp add: l)
  show ?thesis
    using m m2 w rd ow by (intro exI [of _ ?its']) simp
qed

lemma available_mark:
  assumes "markTokenExhausted (Defined its) today t = Inr (Defined its')"
    and "token_item its' = token_item its"
    and "\<forall>u. reads_exhausted (getTokenStatusStore (Defined its') today) u
             \<longleftrightarrow> u = t \<or> reads_exhausted (getTokenStatusStore (Defined its) today) u"
  shows "available_tokens (Defined its') today =
     filter (\<lambda>u. u \<noteq> t) (available_tokens (Defined its) today)
   \<and> getTokens Omitted (Defined its') = getTokens Omitted (Defined its)"
proof -
  have g: "getTokens Omitted (Defined its') = getTokens Omitted (Defined its)"
    using assms(2) by (simp add: getTokens_def)
  show ?thesis using assms(3) g by (auto simp: available_tokens_def intro: filter_cong)
qed

lemma next_not_marked:
  assumes "well_formed (getTokenStatusStore (Defined its) today)"
  shows "\<exists>ls'. markTokenExhausted (Defined its) today c = Inr ls'
     \<and> getNextAvailableToken ls' today \<noteq> Inr (Some c)"
proof -
  obtain its' where m: "markTokenExhausted (Defined its) today c = Inr (Defined its')"
    and ti: "token_item its' = token_item its"
    and wf': "well_formed (getTokenStatusStore (Defined its') today)"
    and rd: "\<forall>u. reads_exhausted (getTokenStatusStore (Defined its') today) u
             \<longleftrightarrow> u = c \<or> reads_exhausted (getTokenStatusStore (Defined its) today) u"
    using mark_well_formed [OF assms, of c] by blast
  have "c \<notin> set (available_tokens (Defined its') today)"
    using rd by (simp add: available_tokens_def)
  then have "getNextAvailableToken (Defined its') today \<noteq> Inr (Some c)"
    by (auto simp: next_available [OF wf'] split: list.splits)
  then show ?thesis using m by simp
qed

section \<open>Properties of the retry loop\<close>

lemma retry_loop_stop:
  "\<not> attempts < maxAttempts \<Longrightarrow>
   retry_loop key isQ today operation maxAttempts ls attempts calls lastError =
     \<lparr>outcome = Inl (Thrown (case lastError of Some e \<Rightarrow> e
                               | None \<Rightarrow> Error ''error_api_connection'')),
      storage = ls, attempts_made = attempts, calls_made = calls\<rparr>"
  by (subst retry_loop.simps) simp

lemma retry_loop_native:
  "attempts < maxAttempts \<Longrightarrow> getNextAvailableToken ls today = Inl e \<Longrightarrow>
   retry_loop key isQ today operation maxAttempts ls attempts calls lastError =
     \<lparr>outcome = Inl (Native e), storage = ls,
      attempts_made = attempts + 1, calls_made = calls\<rparr>"
  by (subst retry_loop.simps) simp

lemma retry_loop_none:
  "attempts < maxAttempts \<Longrightarrow> getNextAvailableToken ls today = Inr None \<Longrightarrow>
   retry_loop key isQ today operation maxAttempts ls attempts calls lastError =
     \<lparr>outcome = Inl (Thrown (Error key)), storage = ls,
      attempts_made = attempts + 1, calls_made = calls\<rparr>"
  by (subst retry_loop.simps) simp

lemma retry_loop_success:
  "attempts < maxAttempts \<Longrightarrow> getNextAvailableToken ls today = Inr (Some token) \<Longrightarrow>
   operation calls (Some token) = Inr result \<Longrightarrow>
   retry_loop key isQ today operation maxAttempts ls attempts calls lastError =
     \<lparr>outcome = Inr result, storage = ls,
      attempts_made = attempts + 1, calls_made = calls + 1\<rparr>"
  by (subst retry_loop.simps) simp

lemma retry_loop_rotate:
  "attempts < maxAttempts \<Longrightarrow> getNextAvailableToken ls today = Inr (Some token) \<Longrightarrow>
   operation calls (Some token) = Inl error \<Longrightarrow> isQ error \<Longrightarrow> token \<noteq> [] \<Longrightarrow>
   markTokenExhausted ls today token = Inr ls' \<Longrightarrow>
   retry_loop key isQ today operation maxAttempts ls attempts calls lastError =
     retry_loop key isQ today operation maxAttempts ls' (attempts + 1) (calls + 1) (Some error)"
  by (subst retry_loop.simps) simp

lemma retry_loop_mark_fails:
  "attempts < maxAttempts \<Longrightarrow> getNextAvailableToken ls today = Inr (Some token) \<Longrightarrow>
   operation calls (Some token) = Inl error \<Longrightarrow> isQ error \<Longrightarrow> token \<noteq> [] \<Longrightarrow>
   markTokenExhausted ls today token = Inl e \<Longrightarrow>
   retry_loop key isQ today operation maxAttempts ls attempts calls lastError =
     \<lparr>outcome = Inl (Native e), storage = ls,
      attempts_made = attempts + 1, calls_made = calls + 1\<rparr>"
  by (subst retry_loop.simps) simp

lemma retry_loop_abort:
  "attempts < maxAttempts \<Longrightarrow> getNextAvailableToken ls today = Inr (Some token) \<Longrightarrow>
   operation calls (Some token) = Inl error \<Longrightarrow> \<not> isQ error \<Longrightarrow>
   retry_loop key isQ today operation maxAttempts ls attempts calls lastError =
     \<lparr>outcome = Inl (Thrown error), storage = ls,
      attempts_made = attempts + 1, calls_made = calls + 1\<rparr>"
  by (subst retry_loop.simps) simp

lemma retry_loop_bounds:
  "attempts \<le> maxAttempts \<Longrightarrow>
   attempts_made (retry_loop key isQ today operation maxAttempts ls attempts calls lastError) \<le> maxAttempts
   \<and> attempts \<le> attempts_made (retry_loop key isQ today operation maxAttempts ls attempts calls lastError)
   \<and> calls \<le> calls_made (retry_loop key isQ today operation maxAttempts ls attempts calls lastError)
   \<and> calls_made (retry_loop key isQ today operation maxAttempts ls attempts calls lastError) + attempts
       \<le> calls + attempts_made (retry_loop key isQ today operation maxAttempts ls attempts calls lastError)"
proof (induction key isQ today operation maxAttempts ls attempts calls lastError
    rule: retry_loop.induct)
  case (1 key isQ today operation maxAttempts ls attempts calls lastError)
  show ?case
  proof (cases "attempts < maxAttempts")
    case False
    then show ?thesis using "1.prems" by (simp add: retry_loop_stop)
  next
    case lt: True
    show ?thesis
    proof (cases "getNextAvailableToken ls today")
      case (Inl e)
      then show ?thesis using lt by (simp add: retry_loop_native)
    next
      case (Inr next_token)
      show ?thesis
      proof (cases next_token)
        case None
        then show ?thesis using lt Inr by (simp add: retry_loop_none)
      next
        case (Some token)
        note nx = Inr [unfolded Some]
        show ?thesis
        proof (cases "operation calls (Some token)")
          case (Inr result)
          have "retry_loop key isQ today operation maxAttempts ls attempts calls lastError =
              \<lparr>outcome = Inr result, storage = ls,
               attempts_made = attempts + 1, calls_made = calls + 1\<rparr>"
            by (rule retry_loop_success) (fact lt nx Inr)+
          then show ?thesis using lt by simp
        next
          case (Inl error)
          show ?thesis
          proof (cases "isQ error \<and> token \<noteq> []")
            case False
            then have "retry_loop key isQ today operation maxAttempts ls attempts calls lastError =
                \<lparr>outcome = Inl (Thrown error), storage = ls,
                 attempts_made = attempts + 1, calls_made = calls + 1\<rparr>"
              using lt nx Inl by (subst retry_loop.simps) auto
            then show ?thesis using lt by simp
          next
            case True
            show ?thesis
            proof (cases "markTokenExhausted ls today token")
              case e: (Inl e)
              have "retry_loop key isQ today operation maxAttempts ls attempts calls lastError =
                  \<lparr>outcome = Inl (Native e), storage = ls,
                   attempts_made = attempts + 1, calls_made = calls + 1\<rparr>"
                using lt nx Inl True e by (subst retry_loop.simps) auto
              then show ?thesis using lt by simp
            next
              case m: (Inr ls')
              have ih: "attempts_made (retry_loop key isQ today operation maxAttempts
                    ls' (attempts + 1) (calls + 1) (Some error)) \<le> maxAttempts
                 \<and> attempts + 1 \<le> attempts_made (retry_loop key isQ today operation maxAttempts
                    ls' (attempts + 1) (calls + 1) (Some error))
                 \<and> calls + 1 \<le> calls_made (retry_loop key isQ today operation maxAttempts
                    ls' (attempts + 1) (calls + 1) (Some error))
                 \<and> calls_made (retry_loop key isQ today operation maxAttempts
                    ls' (attempts + 1) (calls + 1) (Some error)) + (attempts + 1)
                    \<le> (calls + 1) + attempts_made (retry_loop key isQ today operation maxAttempts
                    ls' (attempts + 1) (calls + 1) (Some error))"
                using "1.IH" [OF lt nx refl Inl True m] lt by simp
              have "retry_loop key isQ today operation maxAttempts ls attempts calls lastError =
                  retry_loop key isQ today operation maxAttempts
                    ls' (attempts + 1) (calls + 1) (Some error)"
                using lt nx Inl True m by (subst retry_loop.simps) auto
              then show ?thesis using ih by simp
            qed
          qed
        qed
      qed
    qed
  qed
qed

lemma retry_loop_all_quota:
  assumes fails: "\<And>n t. t \<in> set (getTokens Omitted (Defined its)) \<Longrightarrow>
                    \<exists>e. operation n (Some t) = Inl e \<and> isQ e"
    and wf: "well_formed (getTokenStatusStore (Defined its) today)"
    and card: "card (set (available_tokens (Defined its) today)) = k"
    and room: "attempts + k < maxAttempts"
  shows "\<exists>its'. retry_loop key isQ today operation maxAttempts (Defined its) attempts calls lastError =
           \<lparr>outcome = Inl (Thrown (Error key)), storage = Defined its',
            attempts_made = attempts + k + 1, calls_made = calls + k\<rparr>
         \<and> available_tokens (Defined its') today = []
         \<and> well_formed (getTokenStatusStore (Defined its') today)
         \<and> getTokens Omitted (Defined its') = getTokens Omitted (Defined its)"
  using assms
proof (induction k arbitrary: its attempts calls lastError)
  case 0
  then have "available_tokens (Defined its) today = []" by simp
  then show ?case using "0.prems" by (simp add: retry_loop_none next_available)
next
  case (Suc k)
  let ?ls = "Defined its"
  note wf = Suc.prems(2)
  obtain t ts where av: "available_tokens ?ls today = t # ts"
    using Suc.prems(3) by (cases "available_tokens ?ls today") auto
  then have nx: "getNextAvailableToken ?ls today = Inr (Some t)"
    by (simp add: next_available [OF wf])
  have tin: "t \<in> set (getTokens Omitted ?ls)"
    by (metis av available_tokens_def filter_is_subset list.set_intros(1) subsetD)
  then obtain e where e: "operation calls (Some t) = Inl e" "isQ e"
    using Suc.prems(1) by blast
  have tne: "t \<noteq> []" using tin by (rule getTokens_nonempty)
  obtain its2 where its2: "markTokenExhausted ?ls today t = Inr (Defined its2)"
    and ti: "token_item its2 = token_item its"
    and wf2: "well_formed (getTokenStatusStore (Defined its2) today)"
    and rd: "\<forall>u. reads_exhausted (getTokenStatusStore (Defined its2) today) u
             \<longleftrightarrow> u = t \<or> reads_exhausted (getTokenStatusStore ?ls today) u"
    using mark_well_formed [OF wf, of t] by blast
  have av2: "available_tokens (Defined its2) today = filter (\<lambda>u. u \<noteq> t) (t # ts)"
    and tk2: "getTokens Omitted (Defined its2) = getTokens Omitted ?ls"
    using available_mark [OF its2 ti rd] av by simp_all
  have "set (available_tokens (Defined its2) today) = set (available_tokens ?ls today) - {t}"
    unfolding av2 av by auto
  moreover have "t \<in> set (available_tokens ?ls today)" using av by simp
  ultimately have c2: "card (set (available_tokens (Defined its2) today)) = k"
    using Suc.prems(3) by (simp add: card_Diff_singleton)
  have lt: "attempts < maxAttempts" using Suc.prems(4) by simp
  have step: "retry_loop key isQ today operation maxAttempts ?ls attempts calls lastError =
      retry_loop key isQ today operation maxAttempts (Defined its2) (attempts + 1) (calls + 1) (Some e)"
    by (rule retry_loop_rotate) (fact lt nx e tne its2)+
  have "\<exists>its'. retry_loop key isQ today operation maxAttempts (Defined its2) (attempts + 1) (calls + 1) (Some e) =
           \<lparr>outcome = Inl (Thrown (Error key)), storage = Defined its',
            attempts_made = (attempts + 1) + k + 1, calls_made = (calls + 1) + k\<rparr>
         \<and> available_tokens (Defined its') today = []
         \<and> well_formed (getTokenStatusStore (Defined its') today)
         \<and> getTokens Omitted (Defined its') = getTokens Omitted (Defined its2)"
  proof (rule Suc.IH [OF _ wf2 c2])
    show "\<exists>e. operation n (Some u) = Inl e \<and> isQ e" if "u \<in> set (getTokens Omitted (Defined its2))" for n u
      using that tk2 Suc.prems(1) by simp
    show "attempts + 1 + k < maxAttempts" using Suc.prems(4) by simp
  qed
  then show ?case using step tk2 by simp
qed

lemma retry_loop_prefix:
  assumes wf: "well_formed (getTokenStatusStore (Defined its) today)"
    and av: "available_tokens (Defined its) today = us @ w # rest"
    and dist: "distinct (us @ [w])"
    and fails: "\<And>i. i < length us \<Longrightarrow> \<exists>e. operation (calls + i) (Some (us ! i)) = Inl e \<and> isQ e"
    and ok: "operation (calls + length us) (Some w) = Inr result"
    and room: "attempts + length us < maxAttempts"
  shows "\<exists>its'. retry_loop key isQ today operation maxAttempts (Defined its) attempts calls lastError =
           \<lparr>outcome = Inr result, storage = Defined its',
            attempts_made = attempts + length us + 1, calls_made = calls + length us + 1\<rparr>
         \<and> getTokens Omitted (Defined its') = getTokens Omitted (Defined its)
         \<and> well_formed (getTokenStatusStore (Defined its') today)
         \<and> (\<forall>u. reads_exhausted (getTokenStatusStore (Defined its') today) u \<longleftrightarrow>
                 u \<in> set us \<or> reads_exhausted (getTokenStatusStore (Defined its) today) u)"
  using assms
proof (induction us arbitrary: its attempts calls lastError rest)
  case Nil
  then have nx: "getNextAvailableToken (Defined its) today = Inr (Some w)"
    by (simp add: next_available)
  have "retry_loop key isQ today operation maxAttempts (Defined its) attempts calls lastError =
      \<lparr>outcome = Inr result, storage = Defined its,
       attempts_made = attempts + 1, calls_made = calls + 1\<rparr>"
    by (rule retry_loop_success) (use Nil.prems nx in simp_all)
  then show ?case using Nil.prems(1) by auto
next
  case (Cons u us)
  let ?ls = "Defined its"
  note wf = Cons.prems(1)
  have nx: "getNextAvailableToken ?ls today = Inr (Some u)"
    using Cons.prems(2) by (simp add: next_available [OF wf])
  have uin: "u \<in> set (getTokens Omitted ?ls)"
    using Cons.prems(2)
    by (metis append_Cons available_tokens_def filter_is_subset list.set_intros(1) subsetD)
  have une: "u \<noteq> []" using uin by (rule getTokens_nonempty)
  obtain e where e: "operation calls (Some u) = Inl e" "isQ e"
    using Cons.prems(4) [of 0] by auto
  obtain its2 where its2: "markTokenExhausted ?ls today u = Inr (Defined its2)"
    and ti: "token_item its2 = token_item its"
    and wf2: "well_formed (getTokenStatusStore (Defined its2) today)"
    and ex2: "\<forall>x. reads_exhausted (getTokenStatusStore (Defined its2) today) x
             \<longleftrightarrow> x = u \<or> reads_exhausted (getTokenStatusStore ?ls today) x"
    using mark_well_formed [OF wf, of u] by blast
  have avm: "available_tokens (Defined its2) today = filter (\<lambda>x. x \<noteq> u) ((u # us) @ w # rest)"
    and tk2: "getTokens Omitted (Defined its2) = getTokens Omitted ?ls"
    using available_mark [OF its2 ti ex2] Cons.prems(2) by simp_all
  have av2: "available_tokens (Defined its2) today = us @ w # filter (\<lambda>x. x \<noteq> u) rest"
  proof -
    have "filter (\<lambda>x. x \<noteq> u) us = us" using Cons.prems(3) by (auto intro: filter_True)
    moreover have "w \<noteq> u" using Cons.prems(3) by auto
    ultimately show ?thesis using avm by simp
  qed
  have lt: "attempts < maxAttempts" using Cons.prems(6) by simp
  have step: "retry_loop key isQ today operation maxAttempts ?ls attempts calls lastError =
      retry_loop key isQ today operation maxAttempts (Defined its2) (attempts + 1) (calls + 1) (Some e)"
    by (rule retry_loop_rotate) (fact lt nx e une its2)+
  have "\<exists>its'. retry_loop key isQ today operation maxAttempts (Defined its2) (attempts + 1) (calls + 1) (Some e) =
           \<lparr>outcome = Inr result, storage = Defined its',
            attempts_made = (attempts + 1) + length us + 1, calls_made = (calls + 1) + length us + 1\<rparr>
         \<and> getTokens Omitted (Defined its') = getTokens Omitted (Defined its2)
         \<and> well_formed (getTokenStatusStore (Defined its') today)
         \<and> (\<forall>x. reads_exhausted (getTokenStatusStore (Defined its') today) x \<longleftrightarrow>
                 x \<in> set us \<or> reads_exhausted (getTokenStatusStore (Defined its2) today) x)"
  proof (rule Cons.IH [OF wf2 av2])
    show "distinct (us @ [w])" using Cons.prems(3) by simp
    show "\<exists>e. operation (calls + 1 + i) (Some (us ! i)) = Inl e \<and> isQ e" if "i < length us" for i
      using Cons.prems(4) [of "Suc i"] that by simp
    show "operation (calls + 1 + length us) (Some w) = Inr result" using Cons.prems(5) by simp
    show "attempts + 1 + length us < maxAttempts" using Cons.prems(6) by simp
  qed
  then show ?case using step tk2 ex2 by auto
qed

lemma execute_nonempty:
  "getTokens Omitted ls \<noteq> [] \<Longrightarrow>
   execute p operation ls today =
     retry_loop (exhaustedKey p) (isQuotaFailure p) today operation
       (length (getTokens Omitted ls) + 1) ls 0 0 None"
  by (cases p) (simp_all add: execute_def runWithTokenRetry_def runWithMsTokenRetry_def
      runWithGiteeTokenRetry_def isQuotaFailure_def exhaustedKey_def QUOTA_ERROR_KEY_def)

text \<open>The defining equations with which a run on concrete data is evaluated.\<close>

lemmas eval_defs = runWithMsTokenRetry_def runWithTokenRetry_def runWithGiteeTokenRetry_def
  retry_loop.simps getNextAvailableToken_def getTokens_def trim_def is_space_def
  getTokenStatusStore_def read_store_def defaultStore_def JSON_parse_def JSON_stringify_def
  is_exhausted_def assign_true_def Object_prototype_def markTokenExhausted_def
  saveTokenStatusStore_def settled_def
  ms_isQuotaError_def hf_isQuotaError_def gitee_isQuotaError_def message_includes_def
  quota_op_def b_op_def invalid_op_def Error_def QUOTA_ERROR_KEY_def Let_def

section \<open>Loading and marking\<close>

text \<open>
  Claim C10, as the code has it. Loading the token status store never throws and
  returns a record dated today. When \<^verbatim>\<open>localStorage\<close> is not available, when nothing
  is stored under the status key, when the stored text is empty or is not JSON, and
  when the stored value is \<^verbatim>\<open>null\<close>, has no date, or carries a date other than today,
  the record returned is the default one: dated today, with nothing marked. A stored
  object that carries the date of today is returned as it is, whatever it has for
  \<^verbatim>\<open>exhausted\<close>.
\<close>

theorem getTokenStatusStore_default:
  "date (getTokenStatusStore ls today) = today
   \<and> getTokenStatusStore Undefined today = \<lparr>date = today, exhausted = Plain []\<rparr>
   \<and> (status_item its = None \<or> status_item its = Some EmptyText \<or> status_item its = Some Malformed
        \<or> status_item its = Some (Json JNull) \<or> status_item its = Some (Json JOther)
        \<or> (\<exists>store. status_item its = Some (Json (JStore store)) \<and> date store \<noteq> today)
      \<longrightarrow> getTokenStatusStore (Defined its) today = \<lparr>date = today, exhausted = Plain []\<rparr>)
   \<and> (status_item its = Some (Json (JStore store)) \<and> date store = today
      \<longrightarrow> getTokenStatusStore (Defined its) today = store)"
proof (intro conjI impI)
  show "date (getTokenStatusStore ls today) = today" by (rule load_date)
  show "getTokenStatusStore Undefined today = \<lparr>date = today, exhausted = Plain []\<rparr>"
    by (rule load_Undefined)
  show "getTokenStatusStore (Defined its) today = \<lparr>date = today, exhausted = Plain []\<rparr>"
    if "status_item its = None \<or> status_item its = Some EmptyText \<or> status_item its = Some Malformed
        \<or> status_item its = Some (Json JNull) \<or> status_item its = Some (Json JOther)
        \<or> (\<exists>store. status_item its = Some (Json (JStore store)) \<and> date store \<noteq> today)"
    using that
    by (auto simp: getTokenStatusStore_def read_store_def JSON_parse_def defaultStore_def)
  show "getTokenStatusStore (Defined its) today = store"
    if "status_item its = Some (Json (JStore store)) \<and> date store = today"
    using that by (simp add: getTokenStatusStore_def read_store_def JSON_parse_def)
qed

theorem getTokenStatusStore_default_witness:
  "getTokenStatusStore (Defined \<lparr>token_item = Some ''A'', status_item = Some Malformed\<rparr>) ''2024-05-02''
     = \<lparr>date = ''2024-05-02'', exhausted = Plain []\<rparr>
   \<and> getTokenStatusStore (Defined \<lparr>token_item = Some ''A'', status_item =
          Some (Json (JStore \<lparr>date = ''2024-05-01'', exhausted = Plain [(''A'', True)]\<rparr>))\<rparr>) ''2024-05-02''
     = \<lparr>date = ''2024-05-02'', exhausted = Plain []\<rparr>
   \<and> getTokenStatusStore (Defined \<lparr>token_item = Some ''A'', status_item =
          Some (Json (JStore \<lparr>date = ''2024-05-02'', exhausted = Plain [(''A'', True)]\<rparr>))\<rparr>) ''2024-05-02''
     = \<lparr>date = ''2024-05-02'', exhausted = Plain [(''A'', True)]\<rparr>"
  using getTokenStatusStore_default [of Undefined "''2024-05-02''" "\<lparr>token_item = Some ''A'', status_item = Some Malformed\<rparr>"
      "\<lparr>date = ''2024-05-02'', exhausted = Plain []\<rparr>"]
    getTokenStatusStore_default [of Undefined "''2024-05-02''" "\<lparr>token_item = Some ''A'', status_item =
          Some (Json (JStore \<lparr>date = ''2024-05-01'', exhausted = Plain [(''A'', True)]\<rparr>))\<rparr>"
      "\<lparr>date = ''2024-05-02'', exhausted = Plain []\<rparr>"]
    getTokenStatusStore_default [of Undefined "''2024-05-02''" "\<lparr>token_item = Some ''A'', status_item =
          Some (Json (JStore \<lparr>date = ''2024-05-02'', exhausted = Plain [(''A'', True)]\<rparr>))\<rparr>"
      "\<lparr>date = ''2024-05-02'', exhausted = Plain [(''A'', True)]\<rparr>"]
  by simp

text \<open>
  A stored object dated today that has no \<^verbatim>\<open>exhausted\<close> is loaded as it is: the record
  is not one of the interface \<^verbatim>\<open>TokenStatusStore\<close>, and selecting a token from it
  throws.
\<close>

theorem getTokenStatusStore_ill_formed_counterexample:
  "\<not> well_formed (getTokenStatusStore (Defined \<lparr>token_item = Some ''A'', status_item =
          Some (Json (JStore \<lparr>date = ''2024-05-02'', exhausted = Absent\<rparr>))\<rparr>) ''2024-05-02'')
   \<and> getNextAvailableToken (Defined \<lparr>token_item = Some ''A'', status_item =
          Some (Json (JStore \<lparr>date = ''2024-05-02'', exhausted = Absent\<rparr>))\<rparr>) ''2024-05-02''
       = Inl TypeError"
  by (simp add: well_formed_def eval_defs)

text \<open>
  Claim C9, as the code has it. Let the record of today, as it is loaded, be one of the
  interface \<^verbatim>\<open>TokenStatusStore\<close>. Then \<^verbatim>\<open>markTokenExhausted\<close> of a token returns, and
  marking the same token a second time leaves the storage as the first marking left
  it. When in addition \<^verbatim>\<open>localStorage\<close> is available, the token reads as exhausted in
  the record loaded after the marking, and is an entry of that record unless it is
  the name \<^verbatim>\<open>__proto__\<close>.
\<close>

theorem markTokenExhausted_round_trip:
  assumes "well_formed (getTokenStatusStore ls today)"
  shows "\<exists>ls'. markTokenExhausted ls today c = Inr ls'
     \<and> markTokenExhausted ls' today c = Inr ls'
     \<and> ((\<exists>its. ls = Defined its) \<longrightarrow>
          is_exhausted (getTokenStatusStore ls' today) c = Inr True
          \<and> (c \<noteq> ''__proto__'' \<longrightarrow>
               (\<exists>entries. exhausted (getTokenStatusStore ls' today) = Plain entries
                  \<and> map_of entries c = Some True)))"
proof (cases ls)
  case Undefined
  then show ?thesis by (simp add: mark_Undefined)
next
  case (Defined its)
  obtain its' where m: "markTokenExhausted (Defined its) today c = Inr (Defined its')"
    and m2: "markTokenExhausted (Defined its') today c = Inr (Defined its')"
    and rd: "\<forall>u. reads_exhausted (getTokenStatusStore (Defined its') today) u
             \<longleftrightarrow> u = c \<or> reads_exhausted (getTokenStatusStore (Defined its) today) u"
    and ow: "c \<noteq> ''__proto__'' \<longrightarrow>
          (\<exists>entries'. exhausted (getTokenStatusStore (Defined its') today) = Plain entries'
             \<and> map_of entries' c = Some True)"
    using mark_well_formed [of its today c] assms Defined by blast
  have "is_exhausted (getTokenStatusStore (Defined its') today) c = Inr True"
    using rd by (simp add: reads_exhausted_def)
  then show ?thesis using Defined m m2 ow by simp
qed

theorem markTokenExhausted_round_trip_witness:
  "markTokenExhausted (Defined \<lparr>token_item = Some ''A,B'', status_item = None\<rparr>) ''2024-05-02'' ''A''
     = Inr (Defined \<lparr>token_item = Some ''A,B'', status_item =
          Some (Json (JStore \<lparr>date = ''2024-05-02'', exhausted = Plain [(''A'', True)]\<rparr>))\<rparr>)
   \<and> markTokenExhausted (Defined \<lparr>token_item = Some ''A,B'', status_item =
          Some (Json (JStore \<lparr>date = ''2024-05-02'', exhausted = Plain [(''A'', True)]\<rparr>))\<rparr>)
        ''2024-05-02'' ''A''
     = Inr (Defined \<lparr>token_item = Some ''A,B'', status_item =
          Some (Json (JStore \<lparr>date = ''2024-05-02'', exhausted = Plain [(''A'', True)]\<rparr>))\<rparr>)
   \<and> is_exhausted (getTokenStatusStore (Defined \<lparr>token_item = Some ''A,B'', status_item =
          Some (Json (JStore \<lparr>date = ''2024-05-02'', exhausted = Plain [(''A'', True)]\<rparr>))\<rparr>)
        ''2024-05-02'') ''A'' = Inr True"
proof -
  let ?ls = "Defined \<lparr>token_item = Some ''A,B'', status_item = None\<rparr>"
  have m: "markTokenExhausted ?ls ''2024-05-02'' ''A'' = Inr (Defined \<lparr>token_item = Some ''A,B'', status_item =
          Some (Json (JStore \<lparr>date = ''2024-05-02'', exhausted = Plain [(''A'', True)]\<rparr>))\<rparr>)"
    by (simp add: eval_defs)
  have w: "well_formed (getTokenStatusStore ?ls ''2024-05-02'')"
    by (simp add: well_formed_def eval_defs)
  show ?thesis
    using markTokenExhausted_round_trip [OF w, of "''A''"] m by simp
qed

text \<open>
  Without \<^verbatim>\<open>localStorage\<close> nothing is saved: the record loaded after marking \<open>A\<close>
  does not have \<open>A\<close> marked. And on a stored object dated today that has no
  \<^verbatim>\<open>exhausted\<close>, marking throws.
\<close>

theorem markTokenExhausted_unavailable_counterexample:
  "markTokenExhausted Undefined ''2024-05-02'' ''A'' = Inr Undefined
   \<and> is_exhausted (getTokenStatusStore Undefined ''2024-05-02'') ''A'' = Inr False
   \<and> markTokenExhausted (Defined \<lparr>token_item = Some ''A'', status_item =
          Some (Json (JStore \<lparr>date = ''2024-05-02'', exhausted = Absent\<rparr>))\<rparr>) ''2024-05-02'' ''A''
       = Inl TypeError"
  by (simp add: eval_defs)

section \<open>The day of the rotation window\<close>

text \<open>
  A stored record whose date differs from the date string of the moment is read as
  the default record, and the next available token is the one that would be selected
  with no record stored at all.
\<close>

lemma stale_record_is_fresh:
  assumes "status_item its = Some (Json (JStore store))" and "date store \<noteq> today"
  shows "getTokenStatusStore (Defined its) today = \<lparr>date = today, exhausted = Plain []\<rparr>
     \<and> getNextAvailableToken (Defined its) today =
         getNextAvailableToken (Defined (its\<lparr>status_item := None\<rparr>)) today"
proof -
  have l: "getTokenStatusStore (Defined its) today = \<lparr>date = today, exhausted = Plain []\<rparr>"
    using assms by (simp add: getTokenStatusStore_def read_store_def JSON_parse_def defaultStore_def)
  have l': "getTokenStatusStore (Defined (its\<lparr>status_item := None\<rparr>)) today
      = \<lparr>date = today, exhausted = Plain []\<rparr>"
    by (simp add: getTokenStatusStore_def read_store_def defaultStore_def)
  show ?thesis using l by (simp add: getNextAvailableToken_def l l' getTokens_status)
qed

text \<open>
  Claim C7 takes the day of the rotation window to be the calendar day at the fixed
  offset of the provider from UTC, which for Model Scope and Gitee AI is UTC+8, as
  the comment on \<^verbatim>\<open>getBeijingDateString\<close> says. The function adds the time zone offset
  of the process to the time value before it adds the eight hours, and then prints
  the date in UTC: in a process whose local time is UTC+8 it returns the date in UTC.
  At 23:00 of 1 May 2024 in Beijing and at 01:00 of 2 May it returns the same string,
  while the date at the offset UTC+8 has changed; so the record in which \<open>A\<close> was
  marked in the evening is not reset after midnight, and no token is available.
\<close>

theorem getBeijingDateString_local_zone:
  "getBeijingDateString beijing_evening = ''2024-05-01''
   \<and> getBeijingDateString beijing_night = ''2024-05-01''
   \<and> toISODate (now beijing_evening + 3600000 * 8) = ''2024-05-01''
   \<and> toISODate (now beijing_night + 3600000 * 8) = ''2024-05-02''
   \<and> markTokenExhausted (Defined \<lparr>token_item = Some ''A'', status_item = None\<rparr>)
        (getBeijingDateString beijing_evening) ''A''
       = Inr (Defined \<lparr>token_item = Some ''A'', status_item =
           Some (Json (JStore \<lparr>date = ''2024-05-01'', exhausted = Plain [(''A'', True)]\<rparr>))\<rparr>)
   \<and> getNextAvailableToken (Defined \<lparr>token_item = Some ''A'', status_item =
           Some (Json (JStore \<lparr>date = ''2024-05-01'', exhausted = Plain [(''A'', True)]\<rparr>))\<rparr>)
        (getBeijingDateString beijing_night) = Inr None"
proof -
  have e: "getBeijingDateString beijing_evening = ''2024-05-01''" by code_simp
  have n: "getBeijingDateString beijing_night = ''2024-05-01''" by code_simp
  have e8: "toISODate (now beijing_evening + 3600000 * 8) = ''2024-05-01''" by code_simp
  have n8: "toISODate (now beijing_night + 3600000 * 8) = ''2024-05-02''" by code_simp
  show ?thesis unfolding e n e8 n8 by (simp add: eval_defs)
qed

section \<open>Parsing the token list\<close>

text \<open>
  Claim C8. \<^verbatim>\<open>getTokens\<close> of \<open>a,a,b\<close> is the list \<open>a\<close>, \<open>a\<close>, \<open>b\<close>: nothing is removed
  for being a duplicate. In general the raw string is taken apart at its commas (the
  fields contain no comma and give the string back when joined with commas), every
  field is trimmed (white space is taken off both ends and nowhere else), and the
  fields that are empty after trimming are dropped, the others keeping their order.
  A token that has just been marked exhausted in a record of the interface
  \<^verbatim>\<open>TokenStatusStore\<close> is never the next available one, so with the tokens \<open>a,a,b\<close> and
  a record in which only \<open>a\<close> is marked, both occurrences of \<open>a\<close> are skipped and \<open>b\<close>
  is selected.
\<close>

theorem getTokens_keeps_duplicates:
  "getTokens (Given ''a,a,b'') ls = [''a'', ''a'', ''b'']
   \<and> (\<exists>fields. join_comma fields = s \<and> (\<forall>f\<in>set fields. CHR '','' \<notin> set f)
         \<and> getTokens (Given s) ls = filter (\<lambda>t. t \<noteq> []) (map trim fields))
   \<and> (\<exists>l r. f = l @ trim f @ r \<and> list_all is_space l \<and> list_all is_space r
         \<and> (trim f = [] \<or> (\<not> is_space (hd (trim f)) \<and> \<not> is_space (last (trim f)))))
   \<and> (well_formed (getTokenStatusStore (Defined its) today) \<longrightarrow>
        (\<exists>ls'. markTokenExhausted (Defined its) today c = Inr ls'
           \<and> getNextAvailableToken ls' today \<noteq> Inr (Some c)))
   \<and> (\<exists>ls'. markTokenExhausted
         (Defined \<lparr>token_item = Some ''a,a,b'', status_item = None\<rparr>) today ''a'' = Inr ls'
         \<and> getNextAvailableToken ls' today = Inr (Some ''b''))"
proof (intro conjI impI)
  show "getTokens (Given ''a,a,b'') ls = [''a'', ''a'', ''b'']"
    by (simp add: getTokens_def trim_def is_space_def)
  show "\<exists>fields. join_comma fields = s \<and> (\<forall>f\<in>set fields. CHR '','' \<notin> set f)
         \<and> getTokens (Given s) ls = filter (\<lambda>t. t \<noteq> []) (map trim fields)"
  proof (intro exI [of _ "split_comma s"] conjI ballI)
    show "join_comma (split_comma s) = s" by (rule join_split_comma)
    show "CHR '','' \<notin> set f" if "f \<in> set (split_comma s)" for f
      using that by (rule split_comma_no_comma)
    show "getTokens (Given s) ls = filter (\<lambda>t. t \<noteq> []) (map trim (split_comma s))"
      by (cases s) (simp_all add: getTokens_def trim_def)
  qed
  show "\<exists>l r. f = l @ trim f @ r \<and> list_all is_space l \<and> list_all is_space r
         \<and> (trim f = [] \<or> (\<not> is_space (hd (trim f)) \<and> \<not> is_space (last (trim f))))"
    using trim_decomp [of f] trim_hd [of f] trim_last [of f] by blast
  show "\<exists>ls'. markTokenExhausted (Defined its) today c = Inr ls'
           \<and> getNextAvailableToken ls' today \<noteq> Inr (Some c)"
    if "well_formed (getTokenStatusStore (Defined its) today)"
    using that by (rule next_not_marked)
  let ?its = "\<lparr>token_item = Some ''a,a,b'', status_item = None\<rparr>"
  have w: "well_formed (getTokenStatusStore (Defined ?its) today)"
    by (simp add: well_formed_def getTokenStatusStore_def read_store_def defaultStore_def)
  have t: "getTokens Omitted (Defined ?its) = [''a'', ''a'', ''b'']"
    by (simp add: getTokens_def trim_def is_space_def)
  have av: "available_tokens (Defined ?its) today = [''a'', ''a'', ''b'']"
    by (simp add: available_tokens_def t getTokenStatusStore_def read_store_def defaultStore_def
        reads_exhausted_def is_exhausted_def Object_prototype_def)
  obtain its' where m: "markTokenExhausted (Defined ?its) today ''a'' = Inr (Defined its')"
    and ti: "token_item its' = token_item ?its"
    and wf': "well_formed (getTokenStatusStore (Defined its') today)"
    and rd: "\<forall>u. reads_exhausted (getTokenStatusStore (Defined its') today) u
             \<longleftrightarrow> u = ''a'' \<or> reads_exhausted (getTokenStatusStore (Defined ?its) today) u"
    using mark_well_formed [OF w, of "''a''"] by blast
  have "available_tokens (Defined its') today = [''b'']"
    using available_mark [OF m ti rd] av by simp
  then have "getNextAvailableToken (Defined its') today = Inr (Some ''b'')"
    by (simp add: next_available [OF wf'])
  then show "\<exists>ls'. markTokenExhausted (Defined ?its) today ''a'' = Inr ls'
         \<and> getNextAvailableToken ls' today = Inr (Some ''b'')"
    using m by simp
qed

theorem getTokens_keeps_duplicates_witness:
  "getTokens (Given '' a , ,b,'') Undefined = [''a'', ''b'']
   \<and> (\<exists>ls'. markTokenExhausted
         (Defined \<lparr>token_item = Some ''a,a,b'', status_item = None\<rparr>) ''2024-05-02'' ''a'' = Inr ls'
         \<and> getNextAvailableToken ls' ''2024-05-02'' = Inr (Some ''b''))"
proof -
  have "getTokens (Given '' a , ,b,'') Undefined = [''a'', ''b'']"
    by (simp add: getTokens_def trim_def is_space_def)
  then show ?thesis
    using getTokens_keeps_duplicates [of Undefined "'' a , ,b,''" "'' a ''" "\<lparr>token_item = Some ''a,a,b'', status_item = None\<rparr>"
        "''2024-05-02''" "''a''"]
    by simp
qed

section \<open>The quota classifier\<close>

lemma any_keyword:
  "(\<exists>kw\<in>set kws. message_includes error kw) \<longleftrightarrow>
     (\<exists>m kw pre post. message error = Some m \<and> m = pre @ kw @ post \<and> kw \<in> set kws)"
  by (cases "message error") (auto simp: message_includes_def js_includes_iff)

lemma ms_keywords:
  "ms_isQuotaError error \<longleftrightarrow>
     status error = Some 429
     \<or> (\<exists>kw\<in>set [''429'', ''quota'', ''credit'', ''Arrearage'', ''Bill'']. message_includes error kw)"
  unfolding ms_isQuotaError_def list.set bex_simps Set.bex_Un by (simp only: disj_ac simp_thms)

lemma gitee_keywords:
  "gitee_isQuotaError error \<longleftrightarrow>
     status error = Some 429
     \<or> (\<exists>kw\<in>set [''429'', ''quota'', ''credit'']. message_includes error kw)"
  unfolding gitee_isQuotaError_def list.set bex_simps by (simp only: disj_ac simp_thms)

text \<open>
  Claim C4, as the code has it. The classifier of Model Scope, and likewise that of
  Gitee AI, answers true exactly when the numeric status of the error is 429 or its
  message contains \<open>429\<close> or one of the keywords of the provider as a substring
  (\<open>quota\<close>, \<open>credit\<close>, \<open>Arrearage\<close>, \<open>Bill\<close> for Model Scope; \<open>quota\<close>, \<open>credit\<close>
  for Gitee AI). The substring is compared code unit by code unit: the match is
  sensitive to letter case.
\<close>

theorem isQuotaError_keywords:
  "(ms_isQuotaError error \<longleftrightarrow>
      status error = Some 429
      \<or> (\<exists>m kw pre post. message error = Some m \<and> m = pre @ kw @ post
            \<and> kw \<in> set [''429'', ''quota'', ''credit'', ''Arrearage'', ''Bill'']))
   \<and> (gitee_isQuotaError error \<longleftrightarrow>
      status error = Some 429
      \<or> (\<exists>m kw pre post. message error = Some m \<and> m = pre @ kw @ post
            \<and> kw \<in> set [''429'', ''quota'', ''credit'']))"
  unfolding ms_keywords gitee_keywords any_keyword by (rule conjI) (rule refl)+

theorem isQuotaError_keywords_witness:
  "ms_isQuotaError \<lparr>message = Some ''Free quota used up'', status = None\<rparr>
   \<and> gitee_isQuotaError \<lparr>message = Some ''Free quota used up'', status = None\<rparr>"
proof -
  let ?e = "\<lparr>message = Some ''Free quota used up'', status = None\<rparr>"
  have "\<exists>m kw pre post. message ?e = Some m \<and> m = pre @ kw @ post
          \<and> kw \<in> set [''429'', ''quota'', ''credit'']"
    by (rule exI [of _ "''Free quota used up''"], rule exI [of _ "''quota''"],
        rule exI [of _ "''Free ''"], rule exI [of _ "'' used up''"]) simp
  then show ?thesis using isQuotaError_keywords [of ?e] by auto
qed

text \<open>
  A message that spells the keyword \<open>Quota\<close> with a capital letter, with no status and
  no \<open>429\<close>, is not classified as a quota failure.
\<close>

theorem isQuotaError_capital_counterexample: "\<not> ms_isQuotaError \<lparr>message = Some ''Quota exceeded'', status = None\<rparr>
   \<and> \<not> gitee_isQuotaError \<lparr>message = Some ''Quota exceeded'', status = None\<rparr>"
  by (simp add: ms_isQuotaError_def gitee_isQuotaError_def message_includes_def)

section \<open>The retry wrappers\<close>



text \<open>
  Claim C5. For every provider, storage and operation, the loop of the wrapper runs at
  most once more than there are configured tokens, and the operation is called at
  most that often. (The wrapper is a total function: the loop is defined by a
  recursion that is proved to terminate.)
\<close>

theorem execute_bounded:
  "attempts_made (execute p operation ls today) \<le> length (getTokens Omitted ls) + 1
   \<and> calls_made (execute p operation ls today) \<le> length (getTokens Omitted ls) + 1"
proof (cases "getTokens Omitted ls = []")
  case True
  then show ?thesis
    by (cases p) (simp_all add: execute_def runWithTokenRetry_def runWithMsTokenRetry_def
        runWithGiteeTokenRetry_def)
next
  case False
  show ?thesis
    using retry_loop_bounds [of 0 "length (getTokens Omitted ls) + 1" "exhaustedKey p"
        "isQuotaFailure p" today operation ls 0 None]
    unfolding execute_nonempty [OF False] by simp
qed

theorem execute_bounded_witness:
  "attempts_made (execute HuggingFace quota_op
      (Defined \<lparr>token_item = Some ''a,b'', status_item = None\<rparr>) ''2024-05-02'') \<le> 3
   \<and> calls_made (execute HuggingFace quota_op
      (Defined \<lparr>token_item = Some ''a,b'', status_item = None\<rparr>) ''2024-05-02'') \<le> 3"
proof -
  have "getTokens Omitted (Defined \<lparr>token_item = Some ''a,b'', status_item = None\<rparr>) = [''a'', ''b'']"
    by (simp add: getTokens_def trim_def is_space_def)
  then show ?thesis
    using execute_bounded [of HuggingFace quota_op
        "Defined \<lparr>token_item = Some ''a,b'', status_item = None\<rparr>" "''2024-05-02''"]
    by simp
qed

text \<open>
  Claim C3. With at least one token configured and an operation none of whose
  failures is classified as a quota failure, the loop runs exactly once and the
  storage is left as it was: if a token is available, the operation is called once
  with it and the wrapper settles as that call does, a failure being passed on as it
  was thrown; if no token is available, or selecting one throws, the operation is not
  called.
\<close>

theorem execute_hard_failure_aborts:
  assumes "getTokens Omitted ls \<noteq> []"
    and "\<forall>n t e. operation n t = Inl e \<longrightarrow> \<not> isQuotaFailure p e"
  shows "attempts_made (execute p operation ls today) = 1
     \<and> storage (execute p operation ls today) = ls
     \<and> (case getNextAvailableToken ls today of
          Inl e \<Rightarrow> outcome (execute p operation ls today) = Inl (Native e)
                  \<and> calls_made (execute p operation ls today) = 0
        | Inr None \<Rightarrow> outcome (execute p operation ls today) = Inl (Thrown (Error (exhaustedKey p)))
                  \<and> calls_made (execute p operation ls today) = 0
        | Inr (Some token) \<Rightarrow>
                  outcome (execute p operation ls today) = settled (operation 0 (Some token))
                  \<and> calls_made (execute p operation ls today) = 1)"
proof -
  define m where "m = length (getTokens Omitted ls) + 1"
  have ex: "execute p operation ls today =
      retry_loop (exhaustedKey p) (isQuotaFailure p) today operation m ls 0 0 None"
    unfolding m_def using assms(1) by (rule execute_nonempty)
  have lt: "0 < m" by (simp add: m_def)
  show ?thesis
  proof (cases "getNextAvailableToken ls today")
    case (Inl e)
    then show ?thesis using ex lt by (simp add: retry_loop_native)
  next
    case (Inr next_token)
    show ?thesis
    proof (cases next_token)
      case None
      then show ?thesis using ex lt Inr by (simp add: retry_loop_none)
    next
      case (Some token)
      note nx = Inr [unfolded Some]
      show ?thesis
      proof (cases "operation 0 (Some token)")
        case (Inr result)
        have "retry_loop (exhaustedKey p) (isQuotaFailure p) today operation m ls 0 0 None =
            \<lparr>outcome = Inr result, storage = ls, attempts_made = 0 + 1, calls_made = 0 + 1\<rparr>"
          by (rule retry_loop_success) (fact lt nx Inr)+
        then show ?thesis using ex nx Inr by (simp add: settled_def)
      next
        case (Inl error)
        then have nq: "\<not> isQuotaFailure p error" using assms(2) by blast
        have "retry_loop (exhaustedKey p) (isQuotaFailure p) today operation m ls 0 0 None =
            \<lparr>outcome = Inl (Thrown error), storage = ls, attempts_made = 0 + 1, calls_made = 0 + 1\<rparr>"
          by (rule retry_loop_abort) (fact lt nx Inl nq)+
        then show ?thesis using ex nx Inl by (simp add: settled_def)
      qed
    qed
  qed
qed

theorem execute_hard_failure_aborts_witness:
  "attempts_made (execute ModelScope invalid_op
      (Defined \<lparr>token_item = Some ''a,b'', status_item = None\<rparr>) ''2024-05-02'') = 1
   \<and> storage (execute ModelScope invalid_op
      (Defined \<lparr>token_item = Some ''a,b'', status_item = None\<rparr>) ''2024-05-02'')
       = Defined \<lparr>token_item = Some ''a,b'', status_item = None\<rparr>
   \<and> outcome (execute ModelScope invalid_op
      (Defined \<lparr>token_item = Some ''a,b'', status_item = None\<rparr>) ''2024-05-02'')
       = Inl (Thrown (Error ''error_invalid_response''))
   \<and> calls_made (execute ModelScope invalid_op
      (Defined \<lparr>token_item = Some ''a,b'', status_item = None\<rparr>) ''2024-05-02'') = 1"
proof -
  let ?ls = "Defined \<lparr>token_item = Some ''a,b'', status_item = None\<rparr>"
  have t: "getTokens Omitted ?ls = [''a'', ''b'']"
    by (simp add: getTokens_def trim_def is_space_def)
  have n: "getNextAvailableToken ?ls ''2024-05-02'' = Inr (Some ''a'')"
    by (simp add: getNextAvailableToken_def t getTokenStatusStore_def read_store_def
        defaultStore_def is_exhausted_def Object_prototype_def)
  have q: "\<forall>n t e. invalid_op n t = Inl e \<longrightarrow> \<not> isQuotaFailure ModelScope e"
    by (simp add: invalid_op_def Error_def isQuotaFailure_def ms_isQuotaError_def
        message_includes_def)
  show ?thesis
    using execute_hard_failure_aborts [of ?ls invalid_op ModelScope "''2024-05-02''"] q
    by (simp add: t n invalid_op_def settled_def)
qed

text \<open>
  Claim C1, as the code has it. Let the configured tokens be \<open>N \<ge> 1\<close> pairwise
  distinct tokens, let the record of today be one of the interface
  \<^verbatim>\<open>TokenStatusStore\<close> in which none of them reads as exhausted, and let the operation
  fail with a quota-classified error whenever it is called with one of them. Then the
  loop runs exactly \<open>N + 1\<close> times, calling the operation \<open>N\<close> times, the wrapper fails
  with the exhausted error of the provider, and afterwards the statistics of the
  configured list count \<open>N\<close> exhausted tokens.
\<close>

theorem execute_all_quota_exhausts:
  assumes ne: "getTokens Omitted ls \<noteq> []"
    and dist: "distinct (getTokens Omitted ls)"
    and wf: "well_formed (getTokenStatusStore ls today)"
    and fresh: "\<forall>t\<in>set (getTokens Omitted ls). is_exhausted (getTokenStatusStore ls today) t = Inr False"
    and fails: "\<forall>n. \<forall>t\<in>set (getTokens Omitted ls).
                  \<exists>e. operation n (Some t) = Inl e \<and> isQuotaFailure p e"
    and raw: "getTokens (Given raw) ls = getTokens Omitted ls"
  shows "outcome (execute p operation ls today) = Inl (Thrown (Error (exhaustedKey p)))
     \<and> attempts_made (execute p operation ls today) = length (getTokens Omitted ls) + 1
     \<and> calls_made (execute p operation ls today) = length (getTokens Omitted ls)
     \<and> (\<exists>stats. getTokenStats raw (storage (execute p operation ls today)) today = Inr stats
          \<and> exhausted_count stats = int (length (getTokens Omitted ls)))"
proof -
  let ?ts = "getTokens Omitted ls"
  obtain its where ls: "ls = Defined its" using tokens_Defined [OF ne] by blast
  have av: "available_tokens ls today = ?ts"
    using fresh by (simp add: available_tokens_def reads_exhausted_def)
  have card: "card (set (available_tokens (Defined its) today)) = length ?ts"
    using av dist ls by (simp add: distinct_card)
  have wfd: "well_formed (getTokenStatusStore (Defined its) today)" using wf ls by simp
  have f: "\<exists>e. operation n (Some t) = Inl e \<and> isQuotaFailure p e"
    if "t \<in> set (getTokens Omitted (Defined its))" for n t
    using that fails ls by blast
  obtain its' where r: "retry_loop (exhaustedKey p) (isQuotaFailure p) today operation
        (length ?ts + 1) (Defined its) 0 0 None =
           \<lparr>outcome = Inl (Thrown (Error (exhaustedKey p))), storage = Defined its',
            attempts_made = 0 + length ?ts + 1, calls_made = 0 + length ?ts\<rparr>"
    and e: "available_tokens (Defined its') today = []"
    and w': "well_formed (getTokenStatusStore (Defined its') today)"
    and k: "getTokens Omitted (Defined its') = getTokens Omitted (Defined its)"
    using retry_loop_all_quota [of its operation "isQuotaFailure p" today "length ?ts" 0
        "length ?ts + 1" "exhaustedKey p" 0 None, OF f wfd card]
    by auto
  have ex: "execute p operation ls today =
           \<lparr>outcome = Inl (Thrown (Error (exhaustedKey p))), storage = Defined its',
            attempts_made = length ?ts + 1, calls_made = length ?ts\<rparr>"
    using execute_nonempty [OF ne, of p operation today] r ls by simp
  let ?st' = "getTokenStatusStore (Defined its') today"
  have "filter (\<lambda>t. \<not> reads_exhausted ?st' t) ?ts = []"
    using e k ls by (simp add: available_tokens_def)
  then have all: "filter (\<lambda>t. reads_exhausted ?st' t) ?ts = ?ts"
    by (simp add: filter_empty_conv)
  have g: "getTokens (Given raw) (Defined its') = ?ts"
    using raw getTokens_Given [of raw "Defined its'" ls] by simp
  have "filter_length (\<lambda>t. is_exhausted ?st' t) ?ts = Inr (length (filter (\<lambda>t. reads_exhausted ?st' t) ?ts))"
    by (rule filter_length_total) (simp add: is_exhausted_wf [OF w'])
  then have "\<exists>stats. getTokenStats raw (Defined its') today = Inr stats
          \<and> exhausted_count stats = int (length ?ts)"
    by (simp add: getTokenStats_def Let_def g all)
  then show ?thesis using ex by simp
qed

theorem execute_all_quota_exhausts_witness:
  "outcome (execute Gitee quota_op (Defined \<lparr>token_item = Some ''a,b'', status_item = None\<rparr>) ''2024-05-02'')
     = Inl (Thrown (Error ''error_gitee_token_exhausted''))
   \<and> attempts_made (execute Gitee quota_op (Defined \<lparr>token_item = Some ''a,b'', status_item = None\<rparr>) ''2024-05-02'') = 3
   \<and> calls_made (execute Gitee quota_op (Defined \<lparr>token_item = Some ''a,b'', status_item = None\<rparr>) ''2024-05-02'') = 2
   \<and> (\<exists>stats. getTokenStats ''a,b''
        (storage (execute Gitee quota_op (Defined \<lparr>token_item = Some ''a,b'', status_item = None\<rparr>) ''2024-05-02''))
        ''2024-05-02'' = Inr stats \<and> exhausted_count stats = 2)"
proof -
  let ?ls = "Defined \<lparr>token_item = Some ''a,b'', status_item = None\<rparr>"
  have t: "getTokens Omitted ?ls = [''a'', ''b'']"
    by (simp add: getTokens_def trim_def is_space_def)
  have g: "getTokens (Given ''a,b'') ?ls = [''a'', ''b'']"
    by (simp add: getTokens_def trim_def is_space_def)
  have l: "getTokenStatusStore ?ls ''2024-05-02'' = \<lparr>date = ''2024-05-02'', exhausted = Plain []\<rparr>"
    by (simp add: getTokenStatusStore_def read_store_def defaultStore_def)
  have q: "\<forall>n. \<forall>t\<in>set (getTokens Omitted ?ls).
                  \<exists>e. quota_op n (Some t) = Inl e \<and> isQuotaFailure Gitee e"
    by (simp add: quota_op_def isQuotaFailure_def gitee_isQuotaError_def)
  show ?thesis
    using execute_all_quota_exhausts [of ?ls "''2024-05-02''" quota_op Gitee "''a,b''"] q
    by (simp add: t g l is_exhausted_def exhaustedKey_def well_formed_def Object_prototype_def)
qed

text \<open>
  The loop runs twice, not three times, for the two tokens \<open>a,a\<close>, and for the two
  tokens \<open>a,b\<close> when \<open>a\<close> is already marked today; with no token configured, the wrapper
  of Model Scope fails with the token-required error without entering the loop.
\<close>

theorem execute_all_quota_counterexample:
  "length (getTokens Omitted (Defined \<lparr>token_item = Some ''a,a'', status_item = None\<rparr>)) = 2
   \<and> attempts_made (runWithMsTokenRetry quota_op
        (Defined \<lparr>token_item = Some ''a,a'', status_item = None\<rparr>) ''2024-05-02'') = 2
   \<and> length (getTokens Omitted (Defined \<lparr>token_item = Some ''a,b'', status_item =
        Some (Json (JStore \<lparr>date = ''2024-05-02'', exhausted = Plain [(''a'', True)]\<rparr>))\<rparr>)) = 2
   \<and> attempts_made (runWithMsTokenRetry quota_op
        (Defined \<lparr>token_item = Some ''a,b'', status_item =
           Some (Json (JStore \<lparr>date = ''2024-05-02'', exhausted = Plain [(''a'', True)]\<rparr>))\<rparr>) ''2024-05-02'') = 2
   \<and> length (getTokens Omitted (Defined \<lparr>token_item = None, status_item = None\<rparr>)) = 0
   \<and> runWithMsTokenRetry quota_op (Defined \<lparr>token_item = None, status_item = None\<rparr>) ''2024-05-02''
       = \<lparr>outcome = Inl (Thrown (Error ''error_ms_token_required'')),
          storage = Defined \<lparr>token_item = None, status_item = None\<rparr>,
          attempts_made = 0, calls_made = 0\<rparr>"
  by (simp add: eval_defs)

text \<open>
  Claim C2, as the code has it. Let \<open>1 \<le> k \<le> N\<close>, let the first \<open>k\<close> configured tokens
  be pairwise distinct, let the record of today be one of the interface
  \<^verbatim>\<open>TokenStatusStore\<close> in which none of these \<open>k\<close> tokens reads as exhausted, let the
  \<open>i\<close>-th call of the operation, made with the \<open>i\<close>-th token, fail with a
  quota-classified error for every \<open>i < k\<close>, and let the \<open>k\<close>-th call, made with the
  \<open>k\<close>-th token, succeed. Then the wrapper returns that success after exactly \<open>k\<close> runs
  of the loop and \<open>k\<close> calls of the operation, and the tokens that read as exhausted
  in the record afterwards are the \<open>k - 1\<close> preceding tokens together with those that
  read as exhausted before.
\<close>

theorem execute_kth_succeeds:
  assumes k: "1 \<le> k" "k \<le> length (getTokens Omitted ls)"
    and dist: "distinct (take k (getTokens Omitted ls))"
    and wf: "well_formed (getTokenStatusStore ls today)"
    and fresh: "\<forall>t\<in>set (take k (getTokens Omitted ls)).
                  is_exhausted (getTokenStatusStore ls today) t = Inr False"
    and fails: "\<forall>i<k - 1. \<exists>e. operation i (Some (getTokens Omitted ls ! i)) = Inl e
                  \<and> isQuotaFailure p e"
    and ok: "operation (k - 1) (Some (getTokens Omitted ls ! (k - 1))) = Inr result"
  shows "outcome (execute p operation ls today) = Inr result
     \<and> attempts_made (execute p operation ls today) = k
     \<and> calls_made (execute p operation ls today) = k
     \<and> (\<forall>u. is_exhausted (getTokenStatusStore (storage (execute p operation ls today)) today) u
               = Inr (u \<in> set (take (k - 1) (getTokens Omitted ls))
                      \<or> is_exhausted (getTokenStatusStore ls today) u = Inr True))"
proof -
  let ?ts = "getTokens Omitted ls"
  let ?us = "take (k - 1) ?ts"
  let ?w = "?ts ! (k - 1)"
  let ?P = "\<lambda>t. \<not> reads_exhausted (getTokenStatusStore ls today) t"
  have ne: "?ts \<noteq> []" using k by auto
  obtain its where ls: "ls = Defined its" using tokens_Defined [OF ne] by blast
  have wfd: "well_formed (getTokenStatusStore (Defined its) today)" using wf ls by simp
  have tk: "take k ?ts = ?us @ [?w]"
    using k take_Suc_conv_app_nth [of "k - 1" ?ts] by simp
  have "filter ?P (take k ?ts) = take k ?ts"
    using fresh by (simp add: filter_id_conv reads_exhausted_def)
  then have "filter ?P ?ts = take k ?ts @ filter ?P (drop k ?ts)"
    by (metis append_take_drop_id filter_append)
  then have av: "available_tokens (Defined its) today = ?us @ ?w # filter ?P (drop k ?ts)"
    using tk ls by (simp add: available_tokens_def)
  have d: "distinct (?us @ [?w])" using dist tk by simp
  have len: "length ?us = k - 1" using k by simp
  have f: "\<exists>e. operation (0 + i) (Some (?us ! i)) = Inl e \<and> isQuotaFailure p e" if "i < length ?us" for i
    using that fails len by simp
  have o: "operation (0 + length ?us) (Some ?w) = Inr result" using ok len by simp
  have room: "0 + length ?us < length ?ts + 1" using k len by simp
  obtain its' where r: "retry_loop (exhaustedKey p) (isQuotaFailure p) today operation
        (length ?ts + 1) (Defined its) 0 0 None =
           \<lparr>outcome = Inr result, storage = Defined its',
            attempts_made = 0 + length ?us + 1, calls_made = 0 + length ?us + 1\<rparr>"
    and w': "well_formed (getTokenStatusStore (Defined its') today)"
    and e: "\<forall>u. reads_exhausted (getTokenStatusStore (Defined its') today) u \<longleftrightarrow>
                 u \<in> set ?us \<or> reads_exhausted (getTokenStatusStore (Defined its) today) u"
    using retry_loop_prefix [of its today ?us ?w "filter ?P (drop k ?ts)" operation 0
        "isQuotaFailure p" result 0 "length ?ts + 1" "exhaustedKey p" None, OF wfd av d f o room]
    by blast
  have ex: "execute p operation ls today =
           \<lparr>outcome = Inr result, storage = Defined its',
            attempts_made = k, calls_made = k\<rparr>"
    using execute_nonempty [OF ne, of p operation today] r ls len k by simp
  have "is_exhausted (getTokenStatusStore (Defined its') today) u
               = Inr (u \<in> set ?us \<or> is_exhausted (getTokenStatusStore ls today) u = Inr True)" for u
  proof -
    have a: "is_exhausted (getTokenStatusStore (Defined its') today) u
        = Inr (reads_exhausted (getTokenStatusStore (Defined its') today) u)"
      by (rule is_exhausted_wf [OF w'])
    have b: "reads_exhausted (getTokenStatusStore (Defined its') today) u
        \<longleftrightarrow> u \<in> set ?us \<or> reads_exhausted (getTokenStatusStore ls today) u"
      using e ls by simp
    have c: "reads_exhausted (getTokenStatusStore ls today) u
        \<longleftrightarrow> is_exhausted (getTokenStatusStore ls today) u = Inr True"
      by (rule reads_exhausted_def)
    show ?thesis by (simp only: a b c)
  qed
  then show ?thesis using ex by simp
qed

theorem execute_kth_succeeds_witness:
  "execute ModelScope b_op (Defined \<lparr>token_item = Some ''a,b,c'', status_item = None\<rparr>) ''2024-05-02''
     = \<lparr>outcome = Inr ''url'',
        storage = Defined \<lparr>token_item = Some ''a,b,c'', status_item =
           Some (Json (JStore \<lparr>date = ''2024-05-02'', exhausted = Plain [(''a'', True)]\<rparr>))\<rparr>,
        attempts_made = 2, calls_made = 2\<rparr>
   \<and> outcome (execute ModelScope b_op (Defined \<lparr>token_item = Some ''a,b,c'', status_item = None\<rparr>)
        ''2024-05-02'') = Inr ''url''
   \<and> attempts_made (execute ModelScope b_op (Defined \<lparr>token_item = Some ''a,b,c'', status_item = None\<rparr>)
        ''2024-05-02'') = 2"
proof -
  let ?ls = "Defined \<lparr>token_item = Some ''a,b,c'', status_item = None\<rparr>"
  have t: "getTokens Omitted ?ls = [''a'', ''b'', ''c'']"
    by (simp add: getTokens_def trim_def is_space_def)
  have l: "getTokenStatusStore ?ls ''2024-05-02'' = \<lparr>date = ''2024-05-02'', exhausted = Plain []\<rparr>"
    by (simp add: getTokenStatusStore_def read_store_def defaultStore_def)
  have q: "\<forall>i<2 - 1. \<exists>e. b_op i (Some (getTokens Omitted ?ls ! i)) = Inl e \<and> isQuotaFailure ModelScope e"
    by (simp add: t b_op_def isQuotaFailure_def ms_isQuotaError_def message_includes_def)
  have o: "b_op (2 - 1) (Some (getTokens Omitted ?ls ! (2 - 1))) = Inr ''url''"
    by (simp add: t b_op_def)
  have d: "distinct (take 2 (getTokens Omitted ?ls))" by (simp add: t)
  have w: "well_formed (getTokenStatusStore ?ls ''2024-05-02'')" by (simp add: l well_formed_def)
  have f: "\<forall>t\<in>set (take 2 (getTokens Omitted ?ls)).
      is_exhausted (getTokenStatusStore ?ls ''2024-05-02'') t = Inr False"
    by (simp add: t l is_exhausted_def Object_prototype_def)
  have "outcome (execute ModelScope b_op ?ls ''2024-05-02'') = Inr ''url''
     \<and> attempts_made (execute ModelScope b_op ?ls ''2024-05-02'') = 2"
    using execute_kth_succeeds [of 2 ?ls "''2024-05-02''" b_op ModelScope "''url''"] q o d w f by (simp add: t)
  moreover have "execute ModelScope b_op ?ls ''2024-05-02''
     = \<lparr>outcome = Inr ''url'',
        storage = Defined \<lparr>token_item = Some ''a,b,c'', status_item =
           Some (Json (JStore \<lparr>date = ''2024-05-02'', exhausted = Plain [(''a'', True)]\<rparr>))\<rparr>,
        attempts_made = 2, calls_made = 2\<rparr>"
    by (simp add: execute_def eval_defs)
  ultimately show ?thesis by simp
qed

text \<open>
  With the tokens \<open>a,a,b\<close>, of which the third makes the operation succeed, success
  comes after two runs of the loop, not three; with the tokens \<open>a,b\<close> and \<open>b\<close> already
  marked today, the wrapper fails with the exhausted error although \<open>b\<close> would make the
  operation succeed.
\<close>

theorem execute_kth_counterexample:
  "getTokens Omitted (Defined \<lparr>token_item = Some ''a,a,b'', status_item = None\<rparr>) = [''a'', ''a'', ''b'']
   \<and> attempts_made (runWithMsTokenRetry b_op
        (Defined \<lparr>token_item = Some ''a,a,b'', status_item = None\<rparr>) ''2024-05-02'') = 2
   \<and> getTokens Omitted (Defined \<lparr>token_item = Some ''a,b'', status_item =
        Some (Json (JStore \<lparr>date = ''2024-05-02'', exhausted = Plain [(''b'', True)]\<rparr>))\<rparr>) = [''a'', ''b'']
   \<and> outcome (runWithMsTokenRetry b_op
        (Defined \<lparr>token_item = Some ''a,b'', status_item =
           Some (Json (JStore \<lparr>date = ''2024-05-02'', exhausted = Plain [(''b'', True)]\<rparr>))\<rparr>) ''2024-05-02'')
       = Inl (Thrown (Error ''error_ms_token_exhausted''))"
  by (simp add: eval_defs)

text \<open>
  A token that bears the name of a property of \<^verbatim>\<open>Object.prototype\<close> reads as exhausted
  in every record, although the comment in \<^verbatim>\<open>getTokenStats\<close> takes a token to be
  exhausted only if it is in the list of the store: it is never selected.
\<close>

lemma proto_named_token:
  "runWithMsTokenRetry quota_op (Defined \<lparr>token_item = Some ''toString'', status_item = None\<rparr>) ''2024-05-02''
     = \<lparr>outcome = Inl (Thrown (Error ''error_ms_token_exhausted'')),
        storage = Defined \<lparr>token_item = Some ''toString'', status_item = None\<rparr>,
        attempts_made = 1, calls_made = 0\<rparr>"
  by (simp add: eval_defs)

end
